theory Spec2Isabelle
  imports Main "HOL-Library.Sublist"
begin

section \<open>Paths: \<open>path.resolve\<close> and \<open>isValidPath\<close> (server.js, lines 88-98)\<close>

text \<open>
  The server runs on Node.js; \<open>path.resolve\<close> is the platform's function, taken here in
  its POSIX flavour (separator \<open>/\<close>). It walks its arguments from the right, prepending
  each non-empty one until an absolute one has been prepended (the working directory
  comes last), and then normalises the result segment by segment: empty segments and
  \<open>.\<close> are dropped, \<open>..\<close> removes the segment before it, and above the root of an
  absolute path \<open>..\<close> is dropped. Symbolic links are not looked at.
\<close>

fun split_sep :: "string \<Rightarrow> string list" where
  "split_sep [] = [[]]"
| "split_sep (c # cs) =
     (if c = CHR ''/'' then [] # split_sep cs
      else (case split_sep cs of
              [] \<Rightarrow> [[c]]
            | s # ss \<Rightarrow> (c # s) # ss))"

fun join_sep :: "string list \<Rightarrow> string" where
  "join_sep [] = []"
| "join_sep [s] = s"
| "join_sep (s # t # ss) = s @ CHR ''/'' # join_sep (t # ss)"

text \<open>
  \<open>normalizeString path allowAboveRoot\<close>: \<open>res\<close> is the result built so far, as its
  list of segments.
\<close>

fun normalizeString :: "bool \<Rightarrow> string list \<Rightarrow> string list \<Rightarrow> string list" where
  "normalizeString allowAboveRoot res [] = res"
| "normalizeString allowAboveRoot res (s # ss) =
     (if s = [] \<or> s = ''.'' then normalizeString allowAboveRoot res ss
      else if s = ''..'' then
        (if res \<noteq> [] \<and> last res \<noteq> ''..''
           then normalizeString allowAboveRoot (butlast res) ss
         else if allowAboveRoot
           then normalizeString allowAboveRoot (res @ [''..'']) ss
         else normalizeString allowAboveRoot res ss)
      else normalizeString allowAboveRoot (res @ [s]) ss)"

text \<open>
  The right-to-left loop of \<open>path.resolve\<close>: the arguments come last first, the working
  directory at the end; the result is the joined string and whether it is absolute.
\<close>

fun gather :: "string list \<Rightarrow> string \<Rightarrow> string \<times> bool" where
  "gather [] resolvedPath = (resolvedPath, False)"
| "gather (p # ps) resolvedPath =
     (if p = [] then gather ps resolvedPath
      else if hd p = CHR ''/'' then (p @ CHR ''/'' # resolvedPath, True)
      else gather ps (p @ CHR ''/'' # resolvedPath))"

definition path_resolve :: "string \<Rightarrow> string list \<Rightarrow> string" where
  "path_resolve cwd args =
     (case gather (rev args @ [cwd]) [] of
        (resolvedPath, resolvedAbsolute) \<Rightarrow>
          (let segs = normalizeString (\<not> resolvedAbsolute) [] (split_sep resolvedPath)
           in if resolvedAbsolute then CHR ''/'' # join_sep segs
              else if segs = [] then ''.''
              else join_sep segs))"

text \<open>
  The process environment the module reads: the working directory and \<open>__dirname\<close>, the
  directory server.js is installed in.
\<close>

record env =
  process_cwd :: string
  dirname :: string

definition NAS_ROOT :: "env \<Rightarrow> string" where
  "NAS_ROOT e = path_resolve (process_cwd e) [dirname e, ''..'']"

definition corsPath :: "env \<Rightarrow> string" where
  "corsPath e = path_resolve (process_cwd e) [dirname e]"

text \<open>\<open>requestedPath.replace(/^\/+/, '')\<close>\<close>

definition strip_leading_slashes :: "string \<Rightarrow> string" where
  "strip_leading_slashes p = dropWhile (\<lambda>c. c = CHR ''/'') p"

definition startsWith :: "string \<Rightarrow> string \<Rightarrow> bool" where
  "startsWith s p = prefix p s"

definition isValidPath :: "env \<Rightarrow> string \<Rightarrow> bool" where
  "isValidPath e requestedPath =
     (let fullPath = path_resolve (process_cwd e)
                       [NAS_ROOT e, strip_leading_slashes requestedPath]
      in startsWith fullPath (NAS_ROOT e) \<and> \<not> startsWith fullPath (corsPath e))"

text \<open>The path the browse handler hands to the file system (server.js, line 445).\<close>

definition browse_fullPath :: "env \<Rightarrow> string \<Rightarrow> string" where
  "browse_fullPath e requestedPath =
     path_resolve (process_cwd e) [NAS_ROOT e, strip_leading_slashes requestedPath]"

text \<open>The path the download handler hands to the file system (server.js, line 504).\<close>

definition download_fullPath :: "env \<Rightarrow> string \<Rightarrow> string" where
  "download_fullPath e requestedPath =
     path_resolve (process_cwd e) [NAS_ROOT e, requestedPath]"

text \<open>The segments of a path string, and containment of one path under another.\<close>

definition path_segments :: "string \<Rightarrow> string list" where
  "path_segments p = filter (\<lambda>s. s \<noteq> []) (split_sep p)"

definition inside :: "string \<Rightarrow> string \<Rightarrow> bool" where
  "inside dir p = prefix (path_segments dir) (path_segments p)"


section \<open>The store (database.js)\<close>

text \<open>
  A row of table \<open>users\<close> and a row of table \<open>settings\<close>. The column \<open>id\<close> is
  \<open>user_id\<close> here. The timestamps (\<open>created_at\<close>, \<open>last_login\<close>, \<open>updated_at\<close>) play no
  part in what follows and are left out. JavaScript numbers are taken as unbounded
  integers.
\<close>

record user =
  user_id :: int
  username :: string
  email :: "string option"
  password_hash :: string
  role :: string
  is_active :: bool
  created_by :: "int option"

record setting =
  setting_value :: string
  updated_by :: "int option"

text \<open>
  The SQL statements the methods run. Each may fail in the driver (the callback's
  \<open>err\<close>), which rejects the method's promise; \<open>failing\<close> says which ones do in the
  current state of the store. \<open>seq\<close> is the AUTOINCREMENT counter: the largest id ever
  given out.
\<close>

datatype statement =
    SelectUserById | SelectSetting | CountAdmins | InsertUser | UpdateIsActive | ReplaceSetting

text \<open>
  The errors that are thrown: a failed statement, the UNIQUE constraint of
  \<open>users.username\<close>, and JavaScript's \<open>TypeError\<close> on reading a property of
  \<open>undefined\<close>.
\<close>

datatype error = SqliteError statement | UniqueConstraint | TypeError

record database =
  users :: "user list"
  seq :: int
  settings :: "string \<rightharpoonup> setting"
  failing :: "statement \<Rightarrow> bool"

text \<open>
  \<open>createUser\<close>: \<open>hash\<close> is what \<open>bcrypt.hash(password, 12)\<close> yields. The column
  \<open>username\<close> is UNIQUE, so the INSERT fails when a row (active or not) has the name.
  The method resolves to the id, name, email and role of the row it inserted; the model
  returns the row.
\<close>

definition createUser ::
  "(string \<Rightarrow> string) \<Rightarrow> database \<Rightarrow> string \<Rightarrow> string option \<Rightarrow> string \<Rightarrow> string \<Rightarrow> int option
     \<Rightarrow> error + (database \<times> user)" where
  "createUser hash db name mail password r createdBy =
     (if failing db InsertUser then Inl (SqliteError InsertUser)
      else if name \<in> set (map username (users db)) then Inl UniqueConstraint
      else
        (let row = \<lparr>user_id = seq db + 1, username = name, email = mail,
                     password_hash = hash password, role = r, is_active = True,
                     created_by = createdBy\<rparr>
         in Inr (db\<lparr>users := users db @ [row], seq := seq db + 1\<rparr>, row)))"

text \<open>\<open>SELECT * FROM users WHERE id = ? AND is_active = 1\<close>\<close>

definition getUserById :: "database \<Rightarrow> int \<Rightarrow> error + user option" where
  "getUserById db i =
     (if failing db SelectUserById then Inl (SqliteError SelectUserById)
      else Inr (find (\<lambda>u. user_id u = i \<and> is_active u) (users db)))"

text \<open>
  \<open>UPDATE users SET is_active = 0 WHERE id = ? AND role != "admin"\<close>. The handler binds
  the route parameter, a string, to \<open>?\<close>; \<open>sql_eq\<close> is SQLite's comparison of the
  integer column with that text. The result is the new store and \<open>this.changes\<close>, the
  number of rows the statement matched.
\<close>

definition deleteUser ::
  "(int \<Rightarrow> string \<Rightarrow> bool) \<Rightarrow> database \<Rightarrow> string \<Rightarrow> error + (database \<times> nat)" where
  "deleteUser sql_eq db i =
     (if failing db UpdateIsActive then Inl (SqliteError UpdateIsActive)
      else
        (let hit = (\<lambda>u. sql_eq (user_id u) i \<and> role u \<noteq> ''admin'')
         in Inr (db\<lparr>users := map (\<lambda>u. if hit u then u\<lparr>is_active := False\<rparr> else u) (users db)\<rparr>,
                 length (filter hit (users db)))))"

definition getSetting :: "database \<Rightarrow> string \<Rightarrow> error + string option" where
  "getSetting db key =
     (if failing db SelectSetting then Inl (SqliteError SelectSetting)
      else Inr (map_option setting_value (settings db key)))"

definition setSetting :: "database \<Rightarrow> string \<Rightarrow> string \<Rightarrow> int option \<Rightarrow> error + database" where
  "setSetting db key v updatedBy =
     (if failing db ReplaceSetting then Inl (SqliteError ReplaceSetting)
      else Inr (db\<lparr>settings := (settings db)(key \<mapsto> \<lparr>setting_value = v, updated_by = updatedBy\<rparr>)\<rparr>))"

definition isSetupCompleted :: "database \<Rightarrow> error + bool" where
  "isSetupCompleted db =
     (case getSetting db ''setup_completed'' of
        Inl err \<Rightarrow> Inl err
      | Inr setupStatus \<Rightarrow> Inr (setupStatus = Some ''true''))"

text \<open>\<open>SELECT COUNT(*) as count FROM users WHERE role = "admin" AND is_active = 1\<close>\<close>

definition hasAdminUser :: "database \<Rightarrow> error + bool" where
  "hasAdminUser db =
     (if failing db CountAdmins then Inl (SqliteError CountAdmins)
      else Inr (0 < length (filter (\<lambda>u. role u = ''admin'' \<and> is_active u) (users db))))"

text \<open>The store after \<open>init\<close> on an empty file: no users, the default settings.\<close>

definition defaultSettings :: "(string \<times> string) list" where
  "defaultSettings =
     [(''default_language'', ''en''), (''server_name'', ''NAS CORS Server''),
      (''setup_completed'', ''false''), (''max_file_size'', ''104857600''),
      (''allowed_file_types'', ''*'')]"

definition fresh_database :: database where
  "fresh_database =
     \<lparr>users = [], seq = 0,
      settings = map_of (map (\<lambda>(k, v). (k, \<lparr>setting_value = v, updated_by = None\<rparr>)) defaultSettings),
      failing = (\<lambda>_. False)\<rparr>"

section \<open>Requests, responses and the log\<close>

datatype json = JBool bool | JStr string | JNum int | JText string | JObj "(string \<times> json) list"

text \<open>
  \<open>JText key\<close> is \<open>req.t(key)\<close>, the translated message. A response is what the handler
  sends: \<open>res.status(n).json(body)\<close>, \<open>res.redirect\<close>, \<open>res.sendFile\<close>,
  \<open>res.status(n).send(req.t(key))\<close>, or a file piped to the client.
\<close>

datatype response =
    Json nat "(string \<times> json) list"
  | Redirect string
  | SendFile string
  | Send nat string
  | Stream string
  | NoResponse

text \<open>
  The status line of a response: \<open>res.json\<close>, \<open>res.sendFile\<close> and a piped file answer
  200, \<open>res.redirect\<close> answers 302. \<open>NoResponse\<close> is a handler that threw outside its
  \<open>try\<close> and sent nothing.
\<close>

fun status :: "response \<Rightarrow> nat" where
  "status (Json n _) = n"
| "status (Redirect _) = 302"
| "status (SendFile _) = 200"
| "status (Send n _) = n"
| "status (Stream _) = 200"
| "status NoResponse = 0"

datatype log_entry =
    LogAuth string "string option" string bool
  | LogError error string
  | LogAdmin string string string
  | LogSystem string
  | LogFileAccess string string string bool

record session =
  userId :: "int option"
  session_username :: "string option"
  session_role :: "string option"

text \<open>
  The parts of an Express request the code reads: \<open>req.path\<close>, \<open>req.ip\<close>,
  \<open>req.session\<close>, \<open>req.user\<close> (set by the middleware), the route parameter
  (\<open>req.params.id\<close> or \<open>req.params[0]\<close>) and the string fields of the JSON body.
\<close>

record request =
  path :: string
  ip :: string
  session :: "session option"
  user :: "user option"
  param :: string
  body :: "string \<rightharpoonup> string"

text \<open>A middleware either calls \<open>next()\<close> with the request or ends it with a response.\<close>

datatype step = Next request | Respond response

text \<open>\<open>req.session && req.session.userId\<close>: a missing id and the id 0 are falsy.\<close>

definition session_userId :: "request \<Rightarrow> int option" where
  "session_userId req =
     (case session req of
        None \<Rightarrow> None
      | Some s \<Rightarrow> (case userId s of None \<Rightarrow> None | Some i \<Rightarrow> if i = 0 then None else Some i))"

definition session_name :: "request \<Rightarrow> string option" where
  "session_name req = (case session req of None \<Rightarrow> None | Some s \<Rightarrow> session_username s)"

section \<open>Middleware\<close>

definition requireAuth :: "request \<Rightarrow> step" where
  "requireAuth req =
     (case session_userId req of
        Some _ \<Rightarrow> Next req
      | None \<Rightarrow>
          if startsWith (path req) ''/api/''
          then Respond (Json 401 [(''success'', JBool False),
                                  (''message'', JStr ''Authentication required''),
                                  (''redirect'', JStr ''/login'')])
          else Respond (Redirect ''/login''))"

definition requireAdmin :: "database \<Rightarrow> request \<Rightarrow> log_entry list \<times> step" where
  "requireAdmin db req =
     (case session_userId req of
        None \<Rightarrow>
          ([], Respond (Json 401 [(''success'', JBool False),
                                  (''message'', JStr ''Authentication required''),
                                  (''redirect'', JStr ''/login'')]))
      | Some i \<Rightarrow>
          (case getUserById db i of
             Inl err \<Rightarrow>
               ([LogError err ''Admin middleware error''],
                Respond (Json 500 [(''success'', JBool False),
                                   (''message'', JStr ''Internal server error'')]))
           | Inr None \<Rightarrow>
               ([LogAuth ''ADMIN_ACCESS_DENIED'' (session_name req) (ip req) False],
                Respond (Json 403 [(''success'', JBool False),
                                   (''message'', JStr ''Admin privileges required'')]))
           | Inr (Some u) \<Rightarrow>
               if role u \<noteq> ''admin''
               then ([LogAuth ''ADMIN_ACCESS_DENIED'' (session_name req) (ip req) False],
                     Respond (Json 403 [(''success'', JBool False),
                                        (''message'', JStr ''Admin privileges required'')]))
               else ([], Next (req\<lparr>user := Some u\<rparr>))))"

text \<open>The paths let through while setup is required, and the setup routes.\<close>

definition setup_allowed :: "string \<Rightarrow> bool" where
  "setup_allowed p =
     (p = ''/setup'' \<or> startsWith p ''/api/setup'' \<or> startsWith p ''/api/translations''
      \<or> startsWith p ''/api/language'' \<or> startsWith p ''/assets/'')"

definition setup_route :: "string \<Rightarrow> bool" where
  "setup_route p = (p = ''/setup'' \<or> startsWith p ''/api/setup'')"

definition checkSetup_catch :: "error \<Rightarrow> request \<Rightarrow> log_entry list \<times> step" where
  "checkSetup_catch err req =
     ([LogError err ''Setup check middleware error''],
      if startsWith (path req) ''/api/''
      then Respond (Json 500 [(''success'', JBool False),
                              (''message'', JStr ''Internal server error'')])
      else Respond (Redirect ''/setup''))"

definition checkSetup :: "database \<Rightarrow> request \<Rightarrow> log_entry list \<times> step" where
  "checkSetup db req =
     (case isSetupCompleted db of
        Inl err \<Rightarrow> checkSetup_catch err req
      | Inr completed \<Rightarrow>
          (case hasAdminUser db of
             Inl err \<Rightarrow> checkSetup_catch err req
           | Inr hasAdmin \<Rightarrow>
               if \<not> completed \<or> \<not> hasAdmin then
                 (if setup_allowed (path req) then ([], Next req)
                  else if startsWith (path req) ''/api/''
                  then ([], Respond (Json 200 [(''success'', JBool False),
                                              (''requiresSetup'', JBool True),
                                              (''message'', JStr ''Initial setup required''),
                                              (''redirect'', JStr ''/setup'')]))
                  else ([], Respond (Redirect ''/setup'')))
               else if setup_route (path req) then
                 (if startsWith (path req) ''/api/''
                  then ([], Respond (Json 403 [(''success'', JBool False),
                                              (''message'', JStr ''Setup already completed'')]))
                  else ([], Respond (Redirect ''/'')))
               else ([], Next req)))"

text \<open>
  \<open>attachUser\<close>, which runs on every request before the routes: it sets \<open>req.user\<close> to
  the active row of the session's user, if there is one, and always calls \<open>next()\<close>.
\<close>

definition attachUser :: "database \<Rightarrow> request \<Rightarrow> log_entry list \<times> request" where
  "attachUser db req =
     (case session_userId req of
        None \<Rightarrow> ([], req)
      | Some i \<Rightarrow>
          (case getUserById db i of
             Inl err \<Rightarrow> ([LogError err ''Attach user middleware error''], req)
           | Inr None \<Rightarrow> ([], req)
           | Inr (Some u) \<Rightarrow> ([], req\<lparr>user := Some u\<rparr>)))"

section \<open>The rate limiter (\<open>createRateLimiter\<close>)\<close>

text \<open>
  \<open>clients\<close> is the limiter's own map from a client's address to its window. The
  middleware that \<open>createRateLimiter(windowMs, max)\<close> returns is \<open>rateLimiter\<close>, run at
  time \<open>now\<close> (\<open>Date.now()\<close>); the callback of its \<open>setInterval\<close> is \<open>sweep\<close>.
\<close>

record client =
  count :: int
  resetTime :: int

definition too_many_requests :: response where
  "too_many_requests =
     Json 429 [(''success'', JBool False),
               (''message'', JStr ''Too many requests. Please wait a few minutes.'')]"

definition log_name :: "request \<Rightarrow> string" where
  "log_name req =
     (case session_name req of
        None \<Rightarrow> ''anonymous''
      | Some n \<Rightarrow> if n = [] then ''anonymous'' else n)"

definition rateLimiter ::
  "int \<Rightarrow> int \<Rightarrow> (string \<rightharpoonup> client) \<Rightarrow> request \<Rightarrow> int
     \<Rightarrow> (string \<rightharpoonup> client) \<times> log_entry list \<times> step" where
  "rateLimiter windowMs max_requests clients req now =
     (let clientId = ip req in
      case clients clientId of
        None \<Rightarrow>
          (clients(clientId \<mapsto> \<lparr>count = 1, resetTime = now + windowMs\<rparr>), [], Next req)
      | Some client \<Rightarrow>
          (let client' = (if now > resetTime client
                          then \<lparr>count = 1, resetTime = now + windowMs\<rparr>
                          else client\<lparr>count := count client + 1\<rparr>)
           in if count client' > max_requests
              then (clients(clientId \<mapsto> client'),
                    [LogAuth ''RATE_LIMIT_EXCEEDED'' (Some (log_name req)) (ip req) False],
                    Respond too_many_requests)
              else (clients(clientId \<mapsto> client'), [], Next req)))"

definition sweep :: "(string \<rightharpoonup> client) \<Rightarrow> int \<Rightarrow> (string \<rightharpoonup> client)" where
  "sweep clients now =
     (\<lambda>clientId. case clients clientId of
                   None \<Rightarrow> None
                 | Some client \<Rightarrow> if now > resetTime client then None else Some client)"

text \<open>
  What happens to a limiter over time: requests, each at its time, and runs of the
  sweep. \<open>serve\<close> gives the limiter's map at the end and, in order, each request with
  the answer it got.
\<close>

datatype event = Request request int | Sweep int

fun event_time :: "event \<Rightarrow> int" where
  "event_time (Request _ now) = now"
| "event_time (Sweep now) = now"

fun serve ::
  "int \<Rightarrow> int \<Rightarrow> (string \<rightharpoonup> client) \<Rightarrow> event list
     \<Rightarrow> (string \<rightharpoonup> client) \<times> (request \<times> step) list" where
  "serve windowMs max_requests clients [] = (clients, [])"
| "serve windowMs max_requests clients (Sweep now # evs) =
     serve windowMs max_requests (sweep clients now) evs"
| "serve windowMs max_requests clients (Request req now # evs) =
     (case rateLimiter windowMs max_requests clients req now of
        (clients', _, answer) \<Rightarrow>
          (case serve windowMs max_requests clients' evs of
             (clients'', answers) \<Rightarrow> (clients'', (req, answer) # answers)))"

text \<open>
  The requests of one client among the events, and the answers that client got. And
  what the fixed window promises for a list of requests: the first \<open>n\<close> pass, the others
  are answered 429.
\<close>

fun requests_by :: "string \<Rightarrow> event list \<Rightarrow> request list" where
  "requests_by clientId [] = []"
| "requests_by clientId (Sweep _ # evs) = requests_by clientId evs"
| "requests_by clientId (Request req _ # evs) =
     (if ip req = clientId then req # requests_by clientId evs else requests_by clientId evs)"

definition answers_to :: "string \<Rightarrow> (request \<times> step) list \<Rightarrow> step list" where
  "answers_to clientId answers = map snd (filter (\<lambda>(req, _). ip req = clientId) answers)"

definition first_allowed :: "int \<Rightarrow> request list \<Rightarrow> step list" where
  "first_allowed n reqs =
     map Next (take (nat n) reqs)
     @ map (\<lambda>_. Respond too_many_requests) (drop (nat n) reqs)"

text \<open>The three limiters the module creates: login, general, file (window, max).\<close>

definition loginLimiter :: "int \<times> int" where
  "loginLimiter = (15 * 60 * 1000, 10)"

definition generalLimiter :: "int \<times> int" where
  "generalLimiter = (15 * 60 * 1000, 1000)"

definition fileLimiter :: "int \<times> int" where
  "fileLimiter = (60 * 1000, 500)"

section \<open>Handlers (server.js)\<close>

text \<open>
  A handler returns the store as it leaves it, the lines it logs and its response. The
  log lines of the store's own methods are left out. Body fields are JSON strings; a
  missing field and the empty string are falsy.
\<close>

definition setup_error :: "database \<Rightarrow> error \<Rightarrow> database \<times> log_entry list \<times> response" where
  "setup_error db err =
     (db, [LogError err ''Setup error''],
      Json 500 [(''success'', JBool False), (''message'', JText ''setupError'')])"

definition required_field :: "request \<Rightarrow> string \<Rightarrow> string option" where
  "required_field req key =
     (case body req key of
        None \<Rightarrow> None
      | Some v \<Rightarrow> if v = [] then None else Some v)"

text \<open>\<open>app.post('/api/setup', ...)\<close> (lines 116-155)\<close>

definition api_setup ::
  "(string \<Rightarrow> string) \<Rightarrow> database \<Rightarrow> request \<Rightarrow> database \<times> log_entry list \<times> response" where
  "api_setup hash db req =
     (case isSetupCompleted db of
        Inl err \<Rightarrow> setup_error db err
      | Inr completed \<Rightarrow>
          (case hasAdminUser db of
             Inl err \<Rightarrow> setup_error db err
           | Inr hasAdmin \<Rightarrow>
               if completed \<and> hasAdmin
               then (db, [], Json 400 [(''success'', JBool False),
                                       (''message'', JStr ''Setup already completed'')])
               else
                 (case (required_field req ''username'', required_field req ''password'') of
                    (Some name, Some password) \<Rightarrow>
                      (case createUser hash db name (body req ''email'') password ''admin'' None of
                         Inl err \<Rightarrow> setup_error db err
                       | Inr (db1, admin) \<Rightarrow>
                           (case setSetting db1 ''setup_completed'' ''true'' (Some (user_id admin)) of
                              Inl err \<Rightarrow> setup_error db1 err
                            | Inr db2 \<Rightarrow>
                                (db2, [LogSystem ''Initial setup completed''],
                                 Json 200 [(''success'', JBool True),
                                           (''message'', JText ''setupComplete''),
                                           (''user'', JObj [(''id'', JNum (user_id admin)),
                                                            (''username'', JStr (username admin)),
                                                            (''role'', JStr (role admin))])])))
                  | _ \<Rightarrow>
                      (db, [], Json 400 [(''success'', JBool False),
                                         (''message'', JStr ''Username and password are required'')]))))"

text \<open>
  \<open>app.delete('/api/admin/users/:id', requireAdmin, ...)\<close> (lines 292-323), after
  \<open>requireAdmin\<close> has set \<open>req.user\<close>. \<open>loose_eq\<close> is JavaScript's \<open>==\<close> between the route
  parameter, a string, and the numeric id. Without \<open>req.user\<close> the handler throws, and
  throws again in its \<open>catch\<close>.
\<close>

definition delete_user_handler ::
  "(string \<Rightarrow> int \<Rightarrow> bool) \<Rightarrow> (int \<Rightarrow> string \<Rightarrow> bool) \<Rightarrow> database \<Rightarrow> request
     \<Rightarrow> database \<times> log_entry list \<times> response" where
  "delete_user_handler loose_eq sql_eq db req =
     (case user req of
        None \<Rightarrow> (db, [], NoResponse)
      | Some me \<Rightarrow>
          if loose_eq (param req) (user_id me)
          then (db, [], Json 400 [(''success'', JBool False),
                                  (''message'', JStr ''Cannot delete your own account'')])
          else
            (case deleteUser sql_eq db (param req) of
               Inl err \<Rightarrow>
                 (db, [LogError err ''Delete user error''],
                  Json 500 [(''success'', JBool False), (''message'', JText ''internalError'')])
             | Inr (db', changes) \<Rightarrow>
                 if changes = 0
                 then (db', [], Json 404 [(''success'', JBool False),
                                          (''message'', JStr ''User not found'')])
                 else (db', [LogAdmin ''USER_DELETED'' (username me) (''ID:'' @ param req)],
                       Json 200 [(''success'', JBool True),
                                 (''message'', JText ''userDeleted'')])))"

text \<open>The route: the middleware, then the handler.\<close>

definition delete_user_route ::
  "(string \<Rightarrow> int \<Rightarrow> bool) \<Rightarrow> (int \<Rightarrow> string \<Rightarrow> bool) \<Rightarrow> database \<Rightarrow> request
     \<Rightarrow> database \<times> log_entry list \<times> response" where
  "delete_user_route loose_eq sql_eq db req =
     (case requireAdmin db req of
        (logs, Respond r) \<Rightarrow> (db, logs, r)
      | (logs, Next req') \<Rightarrow>
          (case delete_user_handler loose_eq sql_eq db req' of
             (db', logs', r) \<Rightarrow> (db', logs @ logs', r)))"

text \<open>A sequence of requests to the route, each served on the store the last one left.\<close>

fun delete_user_requests ::
  "(string \<Rightarrow> int \<Rightarrow> bool) \<Rightarrow> (int \<Rightarrow> string \<Rightarrow> bool) \<Rightarrow> database \<Rightarrow> request list \<Rightarrow> database" where
  "delete_user_requests loose_eq sql_eq db [] = db"
| "delete_user_requests loose_eq sql_eq db (req # reqs) =
     delete_user_requests loose_eq sql_eq (fst (delete_user_route loose_eq sql_eq db req)) reqs"

text \<open>
  The error-handling middleware at the end of the chain (lines 537-543): what is sent
  when a handler throws outside its own \<open>try\<close>, or inside its \<open>catch\<close>.
\<close>

definition unhandled_error :: "error \<Rightarrow> log_entry list \<times> response" where
  "unhandled_error err =
     ([LogError err ''Unhandled error''],
      Json 500 [(''success'', JBool False), (''message'', JText ''internalError'')])"

text \<open>
  \<open>app.get('/download/*', checkSetup, requireAuth, ...)\<close> (lines 495-534), after its
  middleware. The file system is a map from absolute paths to what is there. Every
  branch logs with \<open>req.user.username\<close> before it answers or opens the file: when
  \<open>req.user\<close> is not set, reading it throws, the handler's \<open>catch\<close> reads it again and
  throws in turn, and the error-handling middleware answers 500; no file is opened.
\<close>

datatype node = File nat | Directory

definition download_handler ::
  "env \<Rightarrow> (string \<rightharpoonup> node) \<Rightarrow> request \<Rightarrow> log_entry list \<times> response" where
  "download_handler e fs req =
     (case user req of
        None \<Rightarrow> unhandled_error TypeError
      | Some u \<Rightarrow>
          (let requestedPath = param req in
           if \<not> isValidPath e requestedPath
           then ([LogFileAccess ''DOWNLOAD_DENIED'' requestedPath (username u) False],
                 Send 403 ''fileAccessDenied'')
           else
             (let fullPath = download_fullPath e requestedPath in
              case fs fullPath of
                None \<Rightarrow>
                  ([LogFileAccess ''DOWNLOAD_NOT_FOUND'' requestedPath (username u) False],
                   Send 404 ''fileNotFound'')
              | Some Directory \<Rightarrow>
                  ([LogFileAccess ''DOWNLOAD_DIRECTORY'' requestedPath (username u) False],
                   Send 400 ''directoryError'')
              | Some (File _) \<Rightarrow>
                  ([LogFileAccess ''DOWNLOAD_SUCCESS'' requestedPath (username u) True],
                   Stream fullPath))))"

text \<open>
  \<open>app.get('/setup', checkSetup, ...)\<close> (lines 101-103), with its middleware, and a
  sequence of requests to the two setup endpoints, each served on the store the last
  one left.
\<close>

definition get_setup :: "database \<Rightarrow> request \<Rightarrow> log_entry list \<times> response" where
  "get_setup db req =
     (case checkSetup db req of
        (logs, Respond r) \<Rightarrow> (logs, r)
      | (logs, Next _) \<Rightarrow> (logs, SendFile ''public/setup.html''))"

datatype setup_call = GetSetup request | PostSetup request

fun setup_calls ::
  "(string \<Rightarrow> string) \<Rightarrow> database \<Rightarrow> setup_call list \<Rightarrow> database \<times> response list" where
  "setup_calls hash db [] = (db, [])"
| "setup_calls hash db (GetSetup req # calls) =
     (case setup_calls hash db calls of
        (db', answers) \<Rightarrow> (db', snd (get_setup db req) # answers))"
| "setup_calls hash db (PostSetup req # calls) =
     (case api_setup hash db req of
        (db1, _, answer) \<Rightarrow>
          (case setup_calls hash db1 calls of
             (db', answers) \<Rightarrow> (db', answer # answers)))"

section \<open>The routes and their middleware (server.js)\<close>

datatype route =
    GET_setup | GET_login | GET_admin | POST_api_setup
  | POST_api_auth_login | POST_api_auth_logout
  | GET_api_admin_users | POST_api_admin_users | PUT_api_admin_users_id | DELETE_api_admin_users_id
  | GET_api_settings | PUT_api_admin_settings
  | GET_api_translations | PUT_api_language | GET_api_auth_status
  | GET_root | GET_api_browse | GET_download

datatype middleware = CheckSetup | RequireAuth | RequireAdmin

text \<open>The middleware each route is registered with, in order.\<close>

fun middlewares :: "route \<Rightarrow> middleware list" where
  "middlewares GET_setup = [CheckSetup]"
| "middlewares GET_login = []"
| "middlewares GET_admin = [RequireAdmin]"
| "middlewares POST_api_setup = []"
| "middlewares POST_api_auth_login = []"
| "middlewares POST_api_auth_logout = [RequireAuth]"
| "middlewares GET_api_admin_users = [RequireAdmin]"
| "middlewares POST_api_admin_users = [RequireAdmin]"
| "middlewares PUT_api_admin_users_id = [RequireAdmin]"
| "middlewares DELETE_api_admin_users_id = [RequireAdmin]"
| "middlewares GET_api_settings = []"
| "middlewares PUT_api_admin_settings = [RequireAdmin]"
| "middlewares GET_api_translations = []"
| "middlewares PUT_api_language = []"
| "middlewares GET_api_auth_status = []"
| "middlewares GET_root = [CheckSetup, RequireAuth]"
| "middlewares GET_api_browse = [CheckSetup, RequireAuth]"
| "middlewares GET_download = [CheckSetup, RequireAuth]"

fun run_middleware :: "database \<Rightarrow> middleware \<Rightarrow> request \<Rightarrow> log_entry list \<times> step" where
  "run_middleware db CheckSetup req = checkSetup db req"
| "run_middleware db RequireAuth req = ([], requireAuth req)"
| "run_middleware db RequireAdmin req = requireAdmin db req"

text \<open>
  Express runs a route's middleware in order; the first response ends the request, and
  \<open>Next req\<close> at the end means the route's handler runs on \<open>req\<close>.
\<close>

fun run_chain :: "database \<Rightarrow> middleware list \<Rightarrow> request \<Rightarrow> log_entry list \<times> step" where
  "run_chain db [] req = ([], Next req)"
| "run_chain db (m # ms) req =
     (case run_middleware db m req of
        (logs, Respond r) \<Rightarrow> (logs, Respond r)
      | (logs, Next req') \<Rightarrow>
          (case run_chain db ms req' of (logs', answer) \<Rightarrow> (logs @ logs', answer)))"

definition dispatch :: "database \<Rightarrow> route \<Rightarrow> request \<Rightarrow> log_entry list \<times> step" where
  "dispatch db r req = run_chain db (middlewares r) req"

text \<open>
  A request to \<open>GET /download/*\<close> from \<open>attachUser\<close> on: the route's middleware, then
  its handler.
\<close>

definition download_route ::
  "env \<Rightarrow> (string \<rightharpoonup> node) \<Rightarrow> database \<Rightarrow> request \<Rightarrow> log_entry list \<times> response" where
  "download_route e fs db req =
     (case attachUser db req of
        (logs, req') \<Rightarrow>
          (case dispatch db GET_download req' of
             (logs', Respond r) \<Rightarrow> (logs @ logs', r)
           | (logs', Next req'') \<Rightarrow>
               (case download_handler e fs req'' of
                  (logs'', r) \<Rightarrow> (logs @ logs' @ logs'', r))))"

text \<open>
  Which request paths Express (version 4, with its default options: letter case is
  ignored and one trailing separator is allowed) hands to a route registered under a
  path without parameters, such as \<open>/setup\<close>.
\<close>

definition lower :: "char \<Rightarrow> char" where
  "lower c =
     (case map_of (zip ''ABCDEFGHIJKLMNOPQRSTUVWXYZ'' ''abcdefghijklmnopqrstuvwxyz'') c of
        None \<Rightarrow> c
      | Some l \<Rightarrow> l)"

definition express_matches :: "string \<Rightarrow> string \<Rightarrow> bool" where
  "express_matches route_path p =
     (map lower p = map lower route_path
      \<or> map lower p = map lower route_path @ ''/'')"

section \<open>The setup state\<close>

text \<open>
  The two conditions of the setup state, read off the tables: the setting
  \<open>setup_completed\<close> is the string \<open>true\<close>, and some row of \<open>users\<close> is an active admin.
  Setup is required unless both hold.
\<close>

definition completed_flag :: "database \<Rightarrow> bool" where
  "completed_flag db =
     (case settings db ''setup_completed'' of
        None \<Rightarrow> False
      | Some s \<Rightarrow> setting_value s = ''true'')"

definition active_admin_exists :: "database \<Rightarrow> bool" where
  "active_admin_exists db = list_ex (\<lambda>u. role u = ''admin'' \<and> is_active u) (users db)"

definition operational :: "database \<Rightarrow> bool" where
  "operational db = (completed_flag db \<and> active_admin_exists db)"

definition setup_required :: "database \<Rightarrow> bool" where
  "setup_required db = (\<not> operational db)"

text \<open>The row of \<open>users\<close> with a given id (the primary key), active or not.\<close>

definition user_row :: "database \<Rightarrow> int \<Rightarrow> user option" where
  "user_row db i = find (\<lambda>u. user_id u = i) (users db)"

section \<open>Example data\<close>

text \<open>A request with nothing but a path and an address.\<close>

definition plain_request :: "string \<Rightarrow> request" where
  "plain_request p =
     \<lparr>path = p, ip = ''10.0.0.7'', session = None, user = None, param = [], body = Map.empty\<rparr>"

text \<open>
  A store after setup: the first admin, an active user, a deactivated user and a second
  admin. And the request of a logged-in user, with a path and a route parameter.
\<close>

definition admin_row :: user where
  "admin_row = \<lparr>user_id = 1, username = ''admin'', email = None, password_hash = ''h1'',
                role = ''admin'', is_active = True, created_by = None\<rparr>"

definition alice_row :: user where
  "alice_row = \<lparr>user_id = 2, username = ''alice'', email = None, password_hash = ''h2'',
                role = ''user'', is_active = True, created_by = Some 1\<rparr>"

definition bob_row :: user where
  "bob_row = \<lparr>user_id = 3, username = ''bob'', email = None, password_hash = ''h3'',
              role = ''user'', is_active = False, created_by = Some 1\<rparr>"

definition carol_row :: user where
  "carol_row = \<lparr>user_id = 4, username = ''carol'', email = None, password_hash = ''h4'',
                role = ''admin'', is_active = True, created_by = Some 1\<rparr>"

definition sample_database :: database where
  "sample_database =
     \<lparr>users = [admin_row, alice_row, bob_row, carol_row], seq = 4,
      settings = (settings fresh_database)
                   (''setup_completed'' \<mapsto> \<lparr>setting_value = ''true'', updated_by = Some 1\<rparr>),
      failing = (\<lambda>_. False)\<rparr>"

text \<open>
  Ids written in decimal: on these JavaScript's \<open>==\<close> and SQLite's comparison of an
  integer column with a text agree with the number read.
\<close>

fun decimal :: "int \<Rightarrow> string \<Rightarrow> int option" where
  "decimal acc [] = Some acc"
| "decimal acc (c # cs) =
     (let n = (of_char c :: nat)
      in if 48 \<le> n \<and> n \<le> 57 then decimal (10 * acc + int n - 48) cs else None)"

definition decimal_loose_eq :: "string \<Rightarrow> int \<Rightarrow> bool" where
  "decimal_loose_eq s n = (s \<noteq> [] \<and> decimal 0 s = Some n)"

definition decimal_sql_eq :: "int \<Rightarrow> string \<Rightarrow> bool" where
  "decimal_sql_eq n s = (s \<noteq> [] \<and> decimal 0 s = Some n)"

text \<open>
  A server installed in \<open>/srv/nas/CORS\<close>, so that it serves \<open>/srv/nas\<close>, and some files
  of the machine it runs on.
\<close>

definition sample_env :: env where
  "sample_env = \<lparr>process_cwd = ''/srv/nas/CORS'', dirname = ''/srv/nas/CORS''\<rparr>"

definition sample_fs :: "string \<rightharpoonup> node" where
  "sample_fs =
     [''/srv/nas/docs/a.txt'' \<mapsto> File 10, ''/srv/nas/CORS/data/nas_server.db'' \<mapsto> File 4096,
      ''/srv/nas-private/key'' \<mapsto> File 64, ''/etc/passwd'' \<mapsto> File 2048]"

text \<open>
  A setup submission; a store in which the admin exists and the flag is not set (what a
  failed \<open>setSetting\<close> after \<open>createUser\<close> leaves); and the sample store with the flag
  set back to \<open>false\<close>.
\<close>

definition setup_request :: "string \<Rightarrow> string \<Rightarrow> request" where
  "setup_request name password =
     (plain_request ''/api/setup'')\<lparr>body := [''username'' \<mapsto> name, ''password'' \<mapsto> password]\<rparr>"

definition half_done_database :: database where
  "half_done_database = fresh_database\<lparr>users := [admin_row], seq := 1\<rparr>"

definition cleared_database :: database where
  "cleared_database =
     sample_database\<lparr>settings := (settings sample_database)
        (''setup_completed'' \<mapsto> \<lparr>setting_value = ''false'', updated_by = Some 1\<rparr>)\<rparr>"

text \<open>A login attempt from the address of the other examples.\<close>

definition login_attempt :: request where
  "login_attempt = plain_request ''/api/auth/login''"

definition request_by :: "user \<Rightarrow> string \<Rightarrow> string \<Rightarrow> request" where
  "request_by u p arg =
     \<lparr>path = p, ip = ''10.0.0.7'',
      session = Some \<lparr>userId = Some (user_id u), session_username = Some (username u),
                      session_role = Some (role u)\<rparr>,
      user = None, param = arg, body = Map.empty\<rparr>"

section \<open>Verified properties\<close>

subsection \<open>The store's queries\<close>

lemma isSetupCompleted_reads_flag:
  "\<not> failing db SelectSetting \<Longrightarrow> isSetupCompleted db = Inr (completed_flag db)"
  by (cases "settings db ''setup_completed''")
     (simp_all add: isSetupCompleted_def getSetting_def completed_flag_def)

lemma hasAdminUser_reads_users:
  "\<not> failing db CountAdmins \<Longrightarrow> hasAdminUser db = Inr (active_admin_exists db)"
  by (auto simp: hasAdminUser_def active_admin_exists_def list_ex_iff filter_empty_conv)

subsection \<open>The setup gate\<close>

text \<open>
  Claim C10. While setup is required, a request that reaches \<open>checkSetup\<close> with a path
  that starts with \<open>/api/\<close> and is outside the allow-list is answered with status 200
  and the body \<open>{success: false, requiresSetup: true, message, redirect: '/setup'}\<close>;
  the gate logs nothing and does not call \<open>next()\<close>. The store's two queries are
  assumed to succeed (otherwise the state is not known and the gate answers 500).
\<close>

theorem checkSetup_api_requires_setup_200:
  assumes "\<not> failing db SelectSetting" and "\<not> failing db CountAdmins"
    and "setup_required db"
    and "startsWith (path req) ''/api/''"
    and "\<not> setup_allowed (path req)"
  shows "checkSetup db req =
           ([], Respond (Json 200 [(''success'', JBool False),
                                   (''requiresSetup'', JBool True),
                                   (''message'', JStr ''Initial setup required''),
                                   (''redirect'', JStr ''/setup'')]))"
proof -
  have flag: "isSetupCompleted db = Inr (completed_flag db)"
    using assms(1) by (rule isSetupCompleted_reads_flag)
  have adm: "hasAdminUser db = Inr (active_admin_exists db)"
    using assms(2) by (rule hasAdminUser_reads_users)
  have "\<not> completed_flag db \<or> \<not> active_admin_exists db"
    using assms(3) by (simp add: setup_required_def operational_def)
  then show ?thesis
    using assms(4,5) by (auto simp: checkSetup_def flag adm)
qed

theorem checkSetup_api_requires_setup_200_witness:
  "\<not> failing fresh_database SelectSetting \<and> \<not> failing fresh_database CountAdmins
   \<and> setup_required fresh_database
   \<and> startsWith (path (plain_request ''/api/browse'')) ''/api/''
   \<and> \<not> setup_allowed (path (plain_request ''/api/browse''))
   \<and> checkSetup fresh_database (plain_request ''/api/browse'')
      = ([], Respond (Json 200 [(''success'', JBool False),
                                (''requiresSetup'', JBool True),
                                (''message'', JStr ''Initial setup required''),
                                (''redirect'', JStr ''/setup'')]))"
proof -
  have h1: "\<not> failing fresh_database SelectSetting" by (simp add: fresh_database_def)
  have h2: "\<not> failing fresh_database CountAdmins" by (simp add: fresh_database_def)
  have h3: "setup_required fresh_database"
    by (simp add: setup_required_def operational_def active_admin_exists_def fresh_database_def)
  have h4: "startsWith (path (plain_request ''/api/browse'')) ''/api/''"
    by (simp add: startsWith_def plain_request_def)
  have h5: "\<not> setup_allowed (path (plain_request ''/api/browse''))"
    by (simp add: setup_allowed_def startsWith_def plain_request_def)
  show ?thesis
    using h1 h2 h3 h4 h5 checkSetup_api_requires_setup_200 [OF h1 h2 h3 h4 h5]
    by simp
qed

subsection \<open>The admin check\<close>

lemma find_by_id_active:
  "distinct (map user_id us) \<Longrightarrow>
   find (\<lambda>u. user_id u = i \<and> is_active u) us =
     (case find (\<lambda>u. user_id u = i) us of
        None \<Rightarrow> None
      | Some u \<Rightarrow> if is_active u then Some u else None)"
proof (induction us)
  case Nil
  then show ?case by simp
next
  case (Cons a us)
  show ?case
  proof (cases "user_id a = i")
    case True
    have "user_id a \<notin> user_id ` set us" using Cons.prems by simp
    with True have "\<forall>u \<in> set us. user_id u \<noteq> i" by (auto simp: image_iff)
    then have "find (\<lambda>u. user_id u = i \<and> is_active u) us = None"
      by (auto simp: find_None_iff)
    with True show ?thesis by simp
  next
    case False
    with Cons show ?thesis by simp
  qed
qed

lemma getUserById_row:
  assumes "distinct (map user_id (users db))" and "\<not> failing db SelectUserById"
  shows "getUserById db i =
           Inr (case user_row db i of
                  None \<Rightarrow> None
                | Some u \<Rightarrow> if is_active u then Some u else None)"
  using assms by (simp add: getUserById_def user_row_def find_by_id_active)

text \<open>
  Claim C6. \<open>requireAdmin\<close> has three failures with three status codes. Without a
  session user id the answer is 401 (nothing is logged). When the lookup of the user
  fails in the store the answer is 500 and the error is logged; it is not the 403
  answer. When the lookup works and the row with the session's id is missing, inactive
  or not of role admin, the answer is 403 (logged as a denied admin access). Otherwise
  the row is attached to the request as \<open>req.user\<close> and the next handler runs. The four
  cases cover every request; ids are the table's primary key, hence distinct.
\<close>

theorem requireAdmin_outcomes:
  assumes "distinct (map user_id (users db))"
  shows "(session_userId req = None \<longrightarrow>
            requireAdmin db req =
              ([], Respond (Json 401 [(''success'', JBool False),
                                      (''message'', JStr ''Authentication required''),
                                      (''redirect'', JStr ''/login'')])))
       \<and> (\<forall>i. session_userId req = Some i \<and> failing db SelectUserById \<longrightarrow>
            requireAdmin db req =
              ([LogError (SqliteError SelectUserById) ''Admin middleware error''],
               Respond (Json 500 [(''success'', JBool False),
                                  (''message'', JStr ''Internal server error'')])))
       \<and> (\<forall>i. session_userId req = Some i \<and> \<not> failing db SelectUserById
              \<and> (user_row db i = None
                   \<or> (\<exists>u. user_row db i = Some u \<and> (\<not> is_active u \<or> role u \<noteq> ''admin''))) \<longrightarrow>
            requireAdmin db req =
              ([LogAuth ''ADMIN_ACCESS_DENIED'' (session_name req) (ip req) False],
               Respond (Json 403 [(''success'', JBool False),
                                  (''message'', JStr ''Admin privileges required'')])))
       \<and> (\<forall>i u. session_userId req = Some i \<and> \<not> failing db SelectUserById
              \<and> user_row db i = Some u \<and> is_active u \<and> role u = ''admin'' \<longrightarrow>
            requireAdmin db req = ([], Next (req\<lparr>user := Some u\<rparr>)))"
proof (intro conjI allI impI)
  assume "session_userId req = None"
  then show "requireAdmin db req =
              ([], Respond (Json 401 [(''success'', JBool False),
                                      (''message'', JStr ''Authentication required''),
                                      (''redirect'', JStr ''/login'')]))"
    by (simp add: requireAdmin_def)
next
  fix i
  assume "session_userId req = Some i \<and> failing db SelectUserById"
  then show "requireAdmin db req =
              ([LogError (SqliteError SelectUserById) ''Admin middleware error''],
               Respond (Json 500 [(''success'', JBool False),
                                  (''message'', JStr ''Internal server error'')]))"
    by (simp add: requireAdmin_def getUserById_def)
next
  fix i
  assume h: "session_userId req = Some i \<and> \<not> failing db SelectUserById
              \<and> (user_row db i = None
                   \<or> (\<exists>u. user_row db i = Some u \<and> (\<not> is_active u \<or> role u \<noteq> ''admin'')))"
  then have look: "getUserById db i =
           Inr (case user_row db i of
                  None \<Rightarrow> None
                | Some u \<Rightarrow> if is_active u then Some u else None)"
    using assms by (simp add: getUserById_row)
  from h show "requireAdmin db req =
              ([LogAuth ''ADMIN_ACCESS_DENIED'' (session_name req) (ip req) False],
               Respond (Json 403 [(''success'', JBool False),
                                  (''message'', JStr ''Admin privileges required'')]))"
    by (auto simp: requireAdmin_def look)
next
  fix i u
  assume h: "session_userId req = Some i \<and> \<not> failing db SelectUserById
              \<and> user_row db i = Some u \<and> is_active u \<and> role u = ''admin''"
  then have look: "getUserById db i = Inr (Some u)"
    using assms by (simp add: getUserById_row)
  from h show "requireAdmin db req = ([], Next (req\<lparr>user := Some u\<rparr>))"
    by (simp add: requireAdmin_def look)
qed

theorem requireAdmin_outcomes_witness:
  "requireAdmin sample_database (plain_request ''/admin'')
     = ([], Respond (Json 401 [(''success'', JBool False),
                               (''message'', JStr ''Authentication required''),
                               (''redirect'', JStr ''/login'')]))
   \<and> requireAdmin (sample_database\<lparr>failing := (\<lambda>s. s = SelectUserById)\<rparr>)
        (request_by admin_row ''/admin'' [])
     = ([LogError (SqliteError SelectUserById) ''Admin middleware error''],
        Respond (Json 500 [(''success'', JBool False),
                           (''message'', JStr ''Internal server error'')]))
   \<and> requireAdmin sample_database (request_by alice_row ''/admin'' [])
     = ([LogAuth ''ADMIN_ACCESS_DENIED'' (Some ''alice'') ''10.0.0.7'' False],
        Respond (Json 403 [(''success'', JBool False),
                           (''message'', JStr ''Admin privileges required'')]))
   \<and> requireAdmin sample_database (request_by bob_row ''/admin'' [])
     = ([LogAuth ''ADMIN_ACCESS_DENIED'' (Some ''bob'') ''10.0.0.7'' False],
        Respond (Json 403 [(''success'', JBool False),
                           (''message'', JStr ''Admin privileges required'')]))
   \<and> requireAdmin sample_database (request_by admin_row ''/admin'' [])
     = ([], Next ((request_by admin_row ''/admin'' [])\<lparr>user := Some admin_row\<rparr>))"
proof -
  let ?broken = "sample_database\<lparr>failing := (\<lambda>s. s = SelectUserById)\<rparr>"
  have ids: "distinct (map user_id (users sample_database))"
    by (simp add: sample_database_def admin_row_def alice_row_def bob_row_def carol_row_def)
  have ids': "distinct (map user_id (users ?broken))"
    using ids by simp
  have ok: "\<not> failing sample_database SelectUserById"
    by (simp add: sample_database_def)
  have rows: "user_row sample_database 1 = Some admin_row"
    "user_row sample_database 2 = Some alice_row"
    "user_row sample_database 3 = Some bob_row"
    by (simp_all add: user_row_def sample_database_def admin_row_def alice_row_def bob_row_def
          carol_row_def)
  have sess: "session_userId (plain_request ''/admin'') = None"
    "session_userId (request_by admin_row ''/admin'' []) = Some 1"
    "session_userId (request_by alice_row ''/admin'' []) = Some 2"
    "session_userId (request_by bob_row ''/admin'' []) = Some 3"
    by (simp_all add: session_userId_def plain_request_def request_by_def
          admin_row_def alice_row_def bob_row_def)
  have facts: "is_active admin_row" "role admin_row = ''admin''"
    "role alice_row \<noteq> ''admin''" "\<not> is_active bob_row"
    by (simp_all add: admin_row_def alice_row_def bob_row_def)
  have names: "session_name (request_by alice_row ''/admin'' []) = Some ''alice''"
    "session_name (request_by bob_row ''/admin'' []) = Some ''bob''"
    "ip (request_by alice_row ''/admin'' []) = ''10.0.0.7''"
    "ip (request_by bob_row ''/admin'' []) = ''10.0.0.7''"
    by (simp_all add: session_name_def request_by_def alice_row_def bob_row_def)
  note a = requireAdmin_outcomes [OF ids, of "plain_request ''/admin''"]
  note b = requireAdmin_outcomes [OF ids', of "request_by admin_row ''/admin'' []"]
  note c = requireAdmin_outcomes [OF ids, of "request_by alice_row ''/admin'' []"]
  note d = requireAdmin_outcomes [OF ids, of "request_by bob_row ''/admin'' []"]
  note e = requireAdmin_outcomes [OF ids, of "request_by admin_row ''/admin'' []"]
  have 1: "requireAdmin sample_database (plain_request ''/admin'')
     = ([], Respond (Json 401 [(''success'', JBool False),
                               (''message'', JStr ''Authentication required''),
                               (''redirect'', JStr ''/login'')]))"
    using a sess by simp
  have 2: "requireAdmin ?broken (request_by admin_row ''/admin'' [])
     = ([LogError (SqliteError SelectUserById) ''Admin middleware error''],
        Respond (Json 500 [(''success'', JBool False),
                           (''message'', JStr ''Internal server error'')]))"
    using b sess by simp
  have 3: "requireAdmin sample_database (request_by alice_row ''/admin'' [])
     = ([LogAuth ''ADMIN_ACCESS_DENIED'' (Some ''alice'') ''10.0.0.7'' False],
        Respond (Json 403 [(''success'', JBool False),
                           (''message'', JStr ''Admin privileges required'')]))"
    using c sess ok rows facts names by simp
  have 4: "requireAdmin sample_database (request_by bob_row ''/admin'' [])
     = ([LogAuth ''ADMIN_ACCESS_DENIED'' (Some ''bob'') ''10.0.0.7'' False],
        Respond (Json 403 [(''success'', JBool False),
                           (''message'', JStr ''Admin privileges required'')]))"
    using d sess ok rows facts names by simp
  have 5: "requireAdmin sample_database (request_by admin_row ''/admin'' [])
     = ([], Next ((request_by admin_row ''/admin'' [])\<lparr>user := Some admin_row\<rparr>))"
    using e sess ok rows facts by simp
  from 1 2 3 4 5 show ?thesis by blast
qed

subsection \<open>Deleting users\<close>

lemma deleteUser_Inr:
  assumes "deleteUser sql_eq db i = Inr (db', n)"
  shows "db' = db\<lparr>users := map (\<lambda>u. if sql_eq (user_id u) i \<and> role u \<noteq> ''admin''
                                      then u\<lparr>is_active := False\<rparr> else u) (users db)\<rparr>"
    and "n = length (filter (\<lambda>u. sql_eq (user_id u) i \<and> role u \<noteq> ''admin'') (users db))"
  using assms by (auto simp: deleteUser_def Let_def split: if_splits)

lemma requireAdmin_Next:
  assumes "requireAdmin db req = (logs, Next req')"
  shows "\<exists>me. req' = req\<lparr>user := Some me\<rparr> \<and> me \<in> set (users db) \<and> role me = ''admin''
              \<and> is_active me \<and> logs = []"
proof -
  from assms obtain i where i: "session_userId req = Some i"
    by (cases "session_userId req") (auto simp: requireAdmin_def)
  from assms i obtain me where me: "getUserById db i = Inr (Some me)"
    by (cases "getUserById db i"; cases "projr (getUserById db i)")
       (auto simp: requireAdmin_def split: if_splits)
  then have "find (\<lambda>u. user_id u = i \<and> is_active u) (users db) = Some me"
    by (auto simp: getUserById_def split: if_splits)
  then have "me \<in> set (users db) \<and> is_active me"
    by (auto simp: find_Some_iff)
  with assms i me show ?thesis
    by (auto simp: requireAdmin_def split: if_splits)
qed

text \<open>What a request to the route can do to the table: nothing, or one UPDATE.\<close>

lemma delete_user_route_users:
  "users (fst (delete_user_route loose_eq sql_eq db req)) = users db
   \<or> users (fst (delete_user_route loose_eq sql_eq db req))
       = map (\<lambda>u. if sql_eq (user_id u) (param req) \<and> role u \<noteq> ''admin''
                  then u\<lparr>is_active := False\<rparr> else u) (users db)"
proof (cases "requireAdmin db req")
  case (Pair logs st)
  show ?thesis
  proof (cases st)
    case (Respond r)
    with Pair show ?thesis by (simp add: delete_user_route_def)
  next
    case (Next req')
    with Pair obtain me where req': "req' = req\<lparr>user := Some me\<rparr>"
      using requireAdmin_Next by blast
    show ?thesis
    proof (cases "deleteUser sql_eq db (param req)")
      case (Inl err)
      with Pair Next req' show ?thesis
        by (simp add: delete_user_route_def delete_user_handler_def)
    next
      case (Inr res)
      obtain db' n where res: "res = (db', n)" by (cases res)
      from deleteUser_Inr(1) [OF Inr [unfolded res]] Pair Next req' Inr res show ?thesis
        by (simp add: delete_user_route_def delete_user_handler_def)
    qed
  qed
qed

lemma delete_user_route_keeps_admin:
  assumes "a \<in> set (users db)" and "role a = ''admin''"
  shows "a \<in> set (users (fst (delete_user_route loose_eq sql_eq db req)))"
  using delete_user_route_users [of loose_eq sql_eq db req] assms
  by (auto simp: image_iff)

lemma delete_user_route_ids:
  "map user_id (users (fst (delete_user_route loose_eq sql_eq db req))) = map user_id (users db)"
  using delete_user_route_users [of loose_eq sql_eq db req]
  by (auto simp: comp_def)

lemma delete_user_requests_keep_admin:
  assumes "a \<in> set (users db)" and "role a = ''admin''"
  shows "a \<in> set (users (delete_user_requests loose_eq sql_eq db reqs))"
  using assms
proof (induction reqs arbitrary: db)
  case Nil
  then show ?case by simp
next
  case (Cons req reqs)
  then show ?case by (simp add: delete_user_route_keeps_admin)
qed

lemma delete_user_requests_ids:
  "map user_id (users (delete_user_requests loose_eq sql_eq db reqs)) = map user_id (users db)"
  by (induction reqs arbitrary: db) (simp_all add: delete_user_route_ids)

lemma deactivate_list_all2:
  "list_all2 (\<lambda>u u'. u' = u \<or> u' = u\<lparr>is_active := False\<rparr>) us
     (map (\<lambda>u. if P u then u\<lparr>is_active := False\<rparr> else u) us)"
  by (induction us) simp_all

lemma same_list_all2: "list_all2 (\<lambda>u u'. u' = u \<or> u' = u\<lparr>is_active := False\<rparr>) us us"
  by (induction us) simp_all

text \<open>An admin row is the target: the UPDATE matches no row.\<close>

lemma admin_target_no_hit:
  assumes ids: "distinct (map user_id us)"
    and sv: "\<forall>i j s. sql_eq i s \<and> sql_eq j s \<longrightarrow> i = j"
    and t: "t \<in> set us" "role t = ''admin''" "sql_eq (user_id t) p"
  shows "filter (\<lambda>u. sql_eq (user_id u) p \<and> role u \<noteq> ''admin'') us = []"
proof -
  have "\<not> (sql_eq (user_id u) p \<and> role u \<noteq> ''admin'')" if u: "u \<in> set us" for u
  proof
    assume h: "sql_eq (user_id u) p \<and> role u \<noteq> ''admin''"
    with sv t(3) have "user_id u = user_id t" by blast
    with ids u t(1) have "u = t" by (meson distinct_map inj_onD)
    with h t(2) show False by simp
  qed
  then show ?thesis by (simp add: filter_empty_conv)
qed

lemma delete_admin_target_rejected:
  assumes ids: "distinct (map user_id (users db))"
    and sv: "\<forall>i j s. sql_eq i s \<and> sql_eq j s \<longrightarrow> i = j"
    and t: "t \<in> set (users db)" "role t = ''admin''" "sql_eq (user_id t) (param req)"
  shows "fst (delete_user_route loose_eq sql_eq db req) = db
         \<and> 400 \<le> status (snd (snd (delete_user_route loose_eq sql_eq db req)))"
proof -
  let ?hit = "\<lambda>u. sql_eq (user_id u) (param req) \<and> role u \<noteq> ''admin''"
  have none: "filter ?hit (users db) = []"
    using admin_target_no_hit [OF ids sv t] .
  then have same: "map (\<lambda>u. if ?hit u then u\<lparr>is_active := False\<rparr> else u) (users db) = users db"
    by (intro map_idI) (auto simp: filter_empty_conv)
  have del: "deleteUser sql_eq db (param req) = Inl (SqliteError UpdateIsActive)
             \<or> deleteUser sql_eq db (param req) = Inr (db, 0)"
    using none same by (simp add: deleteUser_def Let_def)
  show ?thesis
  proof (cases "requireAdmin db req")
    case (Pair logs st)
    show ?thesis
    proof (cases st)
      case (Respond r)
      with Pair have "r = Json 401 [(''success'', JBool False),
                                    (''message'', JStr ''Authentication required''),
                                    (''redirect'', JStr ''/login'')]
                      \<or> r = Json 500 [(''success'', JBool False),
                                       (''message'', JStr ''Internal server error'')]
                      \<or> r = Json 403 [(''success'', JBool False),
                                       (''message'', JStr ''Admin privileges required'')]"
        by (auto simp: requireAdmin_def split: option.splits sum.splits if_splits)
      with Pair Respond show ?thesis by (auto simp: delete_user_route_def)
    next
      case (Next req')
      with Pair obtain me where req': "req' = req\<lparr>user := Some me\<rparr>"
        using requireAdmin_Next by blast
      from del Pair Next req' show ?thesis
        by (auto simp: delete_user_route_def delete_user_handler_def)
    qed
  qed
qed

text \<open>
  Claim C7. For the route \<open>DELETE /api/admin/users/:id\<close>, on a store whose ids are
  distinct and with a route parameter that designates at most one id:
  an admin's request for their own id is rejected with 400 and changes nothing;
  a request whose target is a row of role admin, whoever sends it, is rejected (a
  status of 400 or more) and changes nothing;
  no request removes or adds a row: each row is left as it was or has \<open>is_active\<close> set
  to false;
  and after any sequence of requests the ids are those of before and every row of
  role admin is still there, unchanged (so active if it was).
\<close>

theorem delete_user_protects_admins:
  assumes "distinct (map user_id (users db))"
    and "\<forall>i j s. sql_eq i s \<and> sql_eq j s \<longrightarrow> i = j"
  shows "(\<forall>req me.
            requireAdmin db req = ([], Next (req\<lparr>user := Some me\<rparr>))
            \<and> loose_eq (param req) (user_id me) \<longrightarrow>
            delete_user_route loose_eq sql_eq db req
              = (db, [], Json 400 [(''success'', JBool False),
                                   (''message'', JStr ''Cannot delete your own account'')]))
       \<and> (\<forall>req t.
            t \<in> set (users db) \<and> role t = ''admin'' \<and> sql_eq (user_id t) (param req) \<longrightarrow>
            fst (delete_user_route loose_eq sql_eq db req) = db
            \<and> 400 \<le> status (snd (snd (delete_user_route loose_eq sql_eq db req))))
       \<and> (\<forall>req.
            list_all2 (\<lambda>u u'. u' = u \<or> u' = u\<lparr>is_active := False\<rparr>)
              (users db) (users (fst (delete_user_route loose_eq sql_eq db req))))
       \<and> (\<forall>reqs.
            map user_id (users (delete_user_requests loose_eq sql_eq db reqs))
              = map user_id (users db)
            \<and> (\<forall>a. a \<in> set (users db) \<and> role a = ''admin'' \<longrightarrow>
                   a \<in> set (users (delete_user_requests loose_eq sql_eq db reqs))))"
proof (intro conjI allI impI)
  fix req :: request and me
  assume "requireAdmin db req = ([], Next (req\<lparr>user := Some me\<rparr>))
            \<and> loose_eq (param req) (user_id me)"
  then show "delete_user_route loose_eq sql_eq db req
              = (db, [], Json 400 [(''success'', JBool False),
                                   (''message'', JStr ''Cannot delete your own account'')])"
    by (simp add: delete_user_route_def delete_user_handler_def)
next
  fix req :: request and t
  assume "t \<in> set (users db) \<and> role t = ''admin'' \<and> sql_eq (user_id t) (param req)"
  then have r: "fst (delete_user_route loose_eq sql_eq db req) = db
         \<and> 400 \<le> status (snd (snd (delete_user_route loose_eq sql_eq db req)))"
    using delete_admin_target_rejected [OF assms] by blast
  from r show "fst (delete_user_route loose_eq sql_eq db req) = db" ..
  from r show "400 \<le> status (snd (snd (delete_user_route loose_eq sql_eq db req)))" ..
next
  fix req :: request
  show "list_all2 (\<lambda>u u'. u' = u \<or> u' = u\<lparr>is_active := False\<rparr>)
          (users db) (users (fst (delete_user_route loose_eq sql_eq db req)))"
    using delete_user_route_users [of loose_eq sql_eq db req]
    by (auto simp: deactivate_list_all2 same_list_all2)
next
  fix reqs
  show "map user_id (users (delete_user_requests loose_eq sql_eq db reqs)) = map user_id (users db)"
    by (rule delete_user_requests_ids)
next
  fix reqs a
  assume "a \<in> set (users db) \<and> role a = ''admin''"
  then show "a \<in> set (users (delete_user_requests loose_eq sql_eq db reqs))"
    by (simp add: delete_user_requests_keep_admin)
qed

theorem delete_user_protects_admins_witness:
  "distinct (map user_id (users sample_database))
   \<and> delete_user_route decimal_loose_eq decimal_sql_eq sample_database
        (request_by admin_row ''/api/admin/users/1'' ''1'')
      = (sample_database, [],
         Json 400 [(''success'', JBool False),
                   (''message'', JStr ''Cannot delete your own account'')])
   \<and> fst (delete_user_route decimal_loose_eq decimal_sql_eq sample_database
            (request_by admin_row ''/api/admin/users/4'' ''4'')) = sample_database
   \<and> 400 \<le> status (snd (snd (delete_user_route decimal_loose_eq decimal_sql_eq sample_database
                               (request_by admin_row ''/api/admin/users/4'' ''4''))))
   \<and> list_all2 (\<lambda>u u'. u' = u \<or> u' = u\<lparr>is_active := False\<rparr>)
        (users sample_database)
        (users (fst (delete_user_route decimal_loose_eq decimal_sql_eq sample_database
                       (request_by carol_row ''/api/admin/users/2'' ''2''))))
   \<and> carol_row \<in> set (users (delete_user_requests decimal_loose_eq decimal_sql_eq sample_database
                               [request_by admin_row ''/api/admin/users/2'' ''2'',
                                request_by admin_row ''/api/admin/users/4'' ''4'',
                                request_by carol_row ''/api/admin/users/4'' ''4'']))"
proof -
  have ids: "distinct (map user_id (users sample_database))"
    by (simp add: sample_database_def admin_row_def alice_row_def bob_row_def carol_row_def)
  have sv: "\<forall>i j s. decimal_sql_eq i s \<and> decimal_sql_eq j s \<longrightarrow> i = j"
    by (auto simp: decimal_sql_eq_def)
  note inst = delete_user_protects_admins [OF ids sv, of decimal_loose_eq]
  have adm: "requireAdmin sample_database (request_by admin_row ''/api/admin/users/1'' ''1'')
              = ([], Next ((request_by admin_row ''/api/admin/users/1'' ''1'')\<lparr>user := Some admin_row\<rparr>))"
    by (simp add: requireAdmin_def session_userId_def request_by_def getUserById_def
          sample_database_def admin_row_def)
  have own: "decimal_loose_eq (param (request_by admin_row ''/api/admin/users/1'' ''1''))
               (user_id admin_row)"
    by (simp add: decimal_loose_eq_def request_by_def admin_row_def)
  have carol: "carol_row \<in> set (users sample_database)" "role carol_row = ''admin''"
    by (simp_all add: sample_database_def carol_row_def)
  have target: "decimal_sql_eq (user_id carol_row)
                  (param (request_by admin_row ''/api/admin/users/4'' ''4''))"
    by (simp add: decimal_sql_eq_def request_by_def carol_row_def)
  have 1: "delete_user_route decimal_loose_eq decimal_sql_eq sample_database
             (request_by admin_row ''/api/admin/users/1'' ''1'')
           = (sample_database, [],
              Json 400 [(''success'', JBool False),
                        (''message'', JStr ''Cannot delete your own account'')])"
    using inst adm own by blast
  have 2: "fst (delete_user_route decimal_loose_eq decimal_sql_eq sample_database
                  (request_by admin_row ''/api/admin/users/4'' ''4'')) = sample_database
           \<and> 400 \<le> status (snd (snd (delete_user_route decimal_loose_eq decimal_sql_eq
                                      sample_database
                                      (request_by admin_row ''/api/admin/users/4'' ''4''))))"
    using inst carol target by blast
  have 3: "list_all2 (\<lambda>u u'. u' = u \<or> u' = u\<lparr>is_active := False\<rparr>)
             (users sample_database)
             (users (fst (delete_user_route decimal_loose_eq decimal_sql_eq sample_database
                            (request_by carol_row ''/api/admin/users/2'' ''2''))))"
    using inst by blast
  have 4: "carol_row \<in> set (users (delete_user_requests decimal_loose_eq decimal_sql_eq
                                     sample_database
                                     [request_by admin_row ''/api/admin/users/2'' ''2'',
                                      request_by admin_row ''/api/admin/users/4'' ''4'',
                                      request_by carol_row ''/api/admin/users/4'' ''4'']))"
    using inst carol by blast
  from ids 1 2 3 4 show ?thesis by blast
qed

subsection \<open>The setup submission\<close>

lemma api_setup_operational:
  assumes "\<not> failing db SelectSetting" and "\<not> failing db CountAdmins" and "operational db"
  shows "api_setup hash db req
           = (db, [], Json 400 [(''success'', JBool False),
                                (''message'', JStr ''Setup already completed'')])"
  using assms
  by (simp add: api_setup_def isSetupCompleted_reads_flag hasAdminUser_reads_users operational_def)

lemma api_setup_success:
  assumes "\<not> failing db SelectSetting" and "\<not> failing db CountAdmins"
    and "\<not> failing db InsertUser" and "\<not> failing db ReplaceSetting"
    and "setup_required db"
    and "body req ''username'' = Some name" and "name \<noteq> []"
    and "body req ''password'' = Some password" and "password \<noteq> []"
    and "name \<notin> set (map username (users db))"
  shows "api_setup hash db req
           = (db\<lparr>users := users db
                    @ [\<lparr>user_id = seq db + 1, username = name, email = body req ''email'',
                        password_hash = hash password, role = ''admin'', is_active = True,
                        created_by = None\<rparr>],
                 seq := seq db + 1,
                 settings := (settings db)
                    (''setup_completed'' \<mapsto>
                       \<lparr>setting_value = ''true'', updated_by = Some (seq db + 1)\<rparr>)\<rparr>,
              [LogSystem ''Initial setup completed''],
              Json 200 [(''success'', JBool True),
                        (''message'', JText ''setupComplete''),
                        (''user'', JObj [(''id'', JNum (seq db + 1)),
                                         (''username'', JStr name),
                                         (''role'', JStr ''admin'')])])"
proof -
  have state: "\<not> (completed_flag db \<and> active_admin_exists db)"
    using assms(5) by (simp add: setup_required_def operational_def)
  have fields: "required_field req ''username'' = Some name"
    "required_field req ''password'' = Some password"
    using assms(6-9) by (simp_all add: required_field_def)
  have create: "createUser hash db name (body req ''email'') password ''admin'' None
      = Inr (db\<lparr>users := users db
                    @ [\<lparr>user_id = seq db + 1, username = name, email = body req ''email'',
                        password_hash = hash password, role = ''admin'', is_active = True,
                        created_by = None\<rparr>],
                  seq := seq db + 1\<rparr>,
             \<lparr>user_id = seq db + 1, username = name, email = body req ''email'',
              password_hash = hash password, role = ''admin'', is_active = True,
              created_by = None\<rparr>)"
    using assms(3,10) by (simp add: createUser_def Let_def)
  show ?thesis
    using state assms(1,2,4)
    by (simp add: api_setup_def isSetupCompleted_reads_flag hasAdminUser_reads_users
          fields create setSetting_def)
qed

lemma api_setup_already_completed_only_if:
  assumes "\<not> failing db SelectSetting" and "\<not> failing db CountAdmins"
    and "snd (snd (api_setup hash db req))
           = Json 400 [(''success'', JBool False), (''message'', JStr ''Setup already completed'')]"
  shows "operational db"
proof (rule ccontr)
  assume "\<not> operational db"
  then have state: "\<not> (completed_flag db \<and> active_admin_exists db)"
    by (simp add: operational_def)
  from assms(3) state assms(1,2) show False
    by (auto simp: api_setup_def isSetupCompleted_reads_flag hasAdminUser_reads_users
          setup_error_def
          split: option.splits sum.splits prod.splits if_splits)
qed

text \<open>
  Claim C9, as amended. With the store's queries working, \<open>POST /api/setup\<close> is answered
  \<open>Setup already completed\<close> exactly when both conditions hold (the flag is \<open>true\<close> and
  an active admin exists). When they do not both hold (for instance an active admin
  exists and the flag is not \<open>true\<close>), a submission with a non-empty username that no
  row of \<open>users\<close> has and a non-empty password succeeds, the INSERT and the write of
  the flag working: it adds one row of role admin, active, with the next id, sets
  \<open>setup_completed\<close> to \<open>true\<close> with \<open>updated_by\<close> that id, and answers 200 with the
  new account.
\<close>

theorem api_setup_rejects_only_when_both:
  assumes "\<not> failing db SelectSetting" and "\<not> failing db CountAdmins"
  shows "(snd (snd (api_setup hash db req))
            = Json 400 [(''success'', JBool False), (''message'', JStr ''Setup already completed'')]
          \<longleftrightarrow> operational db)
       \<and> (\<forall>name password.
            setup_required db
            \<and> \<not> failing db InsertUser \<and> \<not> failing db ReplaceSetting
            \<and> body req ''username'' = Some name \<and> name \<noteq> []
            \<and> body req ''password'' = Some password \<and> password \<noteq> []
            \<and> name \<notin> set (map username (users db)) \<longrightarrow>
            api_setup hash db req
              = (db\<lparr>users := users db
                       @ [\<lparr>user_id = seq db + 1, username = name, email = body req ''email'',
                           password_hash = hash password, role = ''admin'', is_active = True,
                           created_by = None\<rparr>],
                    seq := seq db + 1,
                    settings := (settings db)
                       (''setup_completed'' \<mapsto>
                          \<lparr>setting_value = ''true'', updated_by = Some (seq db + 1)\<rparr>)\<rparr>,
                 [LogSystem ''Initial setup completed''],
                 Json 200 [(''success'', JBool True),
                           (''message'', JText ''setupComplete''),
                           (''user'', JObj [(''id'', JNum (seq db + 1)),
                                            (''username'', JStr name),
                                            (''role'', JStr ''admin'')])]))"
proof (intro conjI allI impI iffI)
  assume "snd (snd (api_setup hash db req))
            = Json 400 [(''success'', JBool False), (''message'', JStr ''Setup already completed'')]"
  then show "operational db"
    using api_setup_already_completed_only_if [OF assms] by blast
next
  assume "operational db"
  then show "snd (snd (api_setup hash db req))
            = Json 400 [(''success'', JBool False), (''message'', JStr ''Setup already completed'')]"
    using api_setup_operational [OF assms] by simp
next
  fix name password
  assume h: "setup_required db
            \<and> \<not> failing db InsertUser \<and> \<not> failing db ReplaceSetting
            \<and> body req ''username'' = Some name \<and> name \<noteq> []
            \<and> body req ''password'' = Some password \<and> password \<noteq> []
            \<and> name \<notin> set (map username (users db))"
  then show "api_setup hash db req
              = (db\<lparr>users := users db
                       @ [\<lparr>user_id = seq db + 1, username = name, email = body req ''email'',
                           password_hash = hash password, role = ''admin'', is_active = True,
                           created_by = None\<rparr>],
                    seq := seq db + 1,
                    settings := (settings db)
                       (''setup_completed'' \<mapsto>
                          \<lparr>setting_value = ''true'', updated_by = Some (seq db + 1)\<rparr>)\<rparr>,
                 [LogSystem ''Initial setup completed''],
                 Json 200 [(''success'', JBool True),
                           (''message'', JText ''setupComplete''),
                           (''user'', JObj [(''id'', JNum (seq db + 1)),
                                            (''username'', JStr name),
                                            (''role'', JStr ''admin'')])])"
    using api_setup_success [OF assms, of req name password hash] by blast
qed

lemma sample_operational: "operational sample_database"
  by (simp add: operational_def completed_flag_def active_admin_exists_def sample_database_def
        admin_row_def)

lemma half_done_state:
  "active_admin_exists half_done_database" "\<not> completed_flag half_done_database"
  by (simp_all add: active_admin_exists_def completed_flag_def half_done_database_def
        fresh_database_def defaultSettings_def admin_row_def)

theorem api_setup_rejects_only_when_both_witness:
  "operational sample_database
   \<and> snd (snd (api_setup (\<lambda>p. p) sample_database (setup_request ''eve'' ''pw'')))
       = Json 400 [(''success'', JBool False), (''message'', JStr ''Setup already completed'')]
   \<and> active_admin_exists half_done_database \<and> \<not> completed_flag half_done_database
   \<and> snd (api_setup (\<lambda>p. p) half_done_database (setup_request ''root'' ''pw''))
       = ([LogSystem ''Initial setup completed''],
          Json 200 [(''success'', JBool True),
                    (''message'', JText ''setupComplete''),
                    (''user'', JObj [(''id'', JNum 2),
                                     (''username'', JStr ''root''),
                                     (''role'', JStr ''admin'')])])
   \<and> map username (users (fst (api_setup (\<lambda>p. p) half_done_database
                                  (setup_request ''root'' ''pw'')))) = [''admin'', ''root'']
   \<and> operational (fst (api_setup (\<lambda>p. p) half_done_database (setup_request ''root'' ''pw'')))"
proof -
  have ok: "\<not> failing sample_database SelectSetting" "\<not> failing sample_database CountAdmins"
    by (simp_all add: sample_database_def)
  have ok': "\<not> failing half_done_database SelectSetting"
    "\<not> failing half_done_database CountAdmins"
    "\<not> failing half_done_database InsertUser"
    "\<not> failing half_done_database ReplaceSetting"
    by (simp_all add: half_done_database_def fresh_database_def)
  have req: "setup_required half_done_database"
    using half_done_state by (simp add: setup_required_def operational_def)
  have fields: "body (setup_request ''root'' ''pw'') ''username'' = Some ''root''"
    "body (setup_request ''root'' ''pw'') ''password'' = Some ''pw''"
    "body (setup_request ''root'' ''pw'') ''email'' = None"
    by (simp_all add: setup_request_def)
  have new: "''root'' \<notin> set (map username (users half_done_database))"
    by (simp add: half_done_database_def admin_row_def)
  have vals: "seq half_done_database = 1" "users half_done_database = [admin_row]"
    by (simp_all add: half_done_database_def)
  note a = api_setup_rejects_only_when_both
             [OF ok, of "\<lambda>p. p" "setup_request ''eve'' ''pw''"]
  note b = api_setup_rejects_only_when_both
             [OF ok'(1,2), of "\<lambda>p. p" "setup_request ''root'' ''pw''"]
  have 1: "snd (snd (api_setup (\<lambda>p. p) sample_database (setup_request ''eve'' ''pw'')))
       = Json 400 [(''success'', JBool False), (''message'', JStr ''Setup already completed'')]"
    using a sample_operational by blast
  have 2: "api_setup (\<lambda>p. p) half_done_database (setup_request ''root'' ''pw'')
      = (half_done_database\<lparr>users := [admin_row,
            \<lparr>user_id = 2, username = ''root'', email = None, password_hash = ''pw'',
             role = ''admin'', is_active = True, created_by = None\<rparr>],
          seq := 2,
          settings := (settings half_done_database)
             (''setup_completed'' \<mapsto> \<lparr>setting_value = ''true'', updated_by = Some 2\<rparr>)\<rparr>,
         [LogSystem ''Initial setup completed''],
         Json 200 [(''success'', JBool True),
                   (''message'', JText ''setupComplete''),
                   (''user'', JObj [(''id'', JNum 2),
                                    (''username'', JStr ''root''),
                                    (''role'', JStr ''admin'')])])"
    using b req ok'(3,4) fields new vals by simp
  have 3: "operational (fst (api_setup (\<lambda>p. p) half_done_database (setup_request ''root'' ''pw'')))"
    by (simp add: 2 operational_def completed_flag_def active_admin_exists_def admin_row_def)
  have 4: "map username (users (fst (api_setup (\<lambda>p. p) half_done_database
                                  (setup_request ''root'' ''pw'')))) = [''admin'', ''root'']"
    by (simp add: 2 admin_row_def)
  from sample_operational 1 half_done_state 2 3 4 show ?thesis by simp
qed

theorem api_setup_taken_username_counterexample:
  "active_admin_exists half_done_database \<and> \<not> completed_flag half_done_database
   \<and> body (setup_request ''admin'' ''pw'') ''username'' = Some ''admin''
   \<and> body (setup_request ''admin'' ''pw'') ''password'' = Some ''pw''
   \<and> api_setup (\<lambda>p. p) half_done_database (setup_request ''admin'' ''pw'')
       = (half_done_database, [LogError UniqueConstraint ''Setup error''],
          Json 500 [(''success'', JBool False), (''message'', JText ''setupError'')])"
proof -
  have ok: "\<not> failing half_done_database SelectSetting"
    "\<not> failing half_done_database CountAdmins"
    "\<not> failing half_done_database InsertUser"
    by (simp_all add: half_done_database_def fresh_database_def)
  have taken: "''admin'' \<in> set (map username (users half_done_database))"
    by (simp add: half_done_database_def admin_row_def)
  have fields: "required_field (setup_request ''admin'' ''pw'') ''username'' = Some ''admin''"
    "required_field (setup_request ''admin'' ''pw'') ''password'' = Some ''pw''"
    by (simp_all add: required_field_def setup_request_def)
  have "api_setup (\<lambda>p. p) half_done_database (setup_request ''admin'' ''pw'')
       = (half_done_database, [LogError UniqueConstraint ''Setup error''],
          Json 500 [(''success'', JBool False), (''message'', JText ''setupError'')])"
    using half_done_state ok taken
    by (simp add: api_setup_def isSetupCompleted_reads_flag hasAdminUser_reads_users fields
          createUser_def setup_error_def)
  then show ?thesis
    using half_done_state by (simp add: setup_request_def)
qed

subsection \<open>The setup endpoints once setup is done\<close>

lemma get_setup_operational:
  assumes "\<not> failing db SelectSetting" and "\<not> failing db CountAdmins" and "operational db"
    and "path req = ''/setup''"
  shows "get_setup db req = ([], Redirect ''/'')"
  using assms
  by (simp add: get_setup_def checkSetup_def isSetupCompleted_reads_flag hasAdminUser_reads_users
        operational_def setup_route_def startsWith_def)

lemma checkSetup_operational_api_setup:
  assumes "\<not> failing db SelectSetting" and "\<not> failing db CountAdmins" and "operational db"
    and "startsWith (path req) ''/api/setup''"
  shows "checkSetup db req
           = ([], Respond (Json 403 [(''success'', JBool False),
                                     (''message'', JStr ''Setup already completed'')]))"
proof -
  have "startsWith (path req) ''/api/''"
    using assms(4) by (auto simp: startsWith_def prefix_def)
  with assms show ?thesis
    by (simp add: checkSetup_def isSetupCompleted_reads_flag hasAdminUser_reads_users
          operational_def setup_route_def)
qed

lemma setup_calls_operational:
  assumes "\<not> failing db SelectSetting" and "\<not> failing db CountAdmins" and "operational db"
    and "\<forall>req. GetSetup req \<in> set calls \<longrightarrow> path req = ''/setup''"
  shows "setup_calls hash db calls
           = (db, map (\<lambda>c. case c of
                              GetSetup _ \<Rightarrow> Redirect ''/''
                            | PostSetup _ \<Rightarrow>
                                Json 400 [(''success'', JBool False),
                                          (''message'', JStr ''Setup already completed'')])
                      calls)"
  using assms(4)
proof (induction calls)
  case Nil
  then show ?case by simp
next
  case (Cons c calls)
  then have rest: "setup_calls hash db calls
           = (db, map (\<lambda>c. case c of
                              GetSetup _ \<Rightarrow> Redirect ''/''
                            | PostSetup _ \<Rightarrow>
                                Json 400 [(''success'', JBool False),
                                          (''message'', JStr ''Setup already completed'')])
                      calls)"
    by simp
  show ?case
  proof (cases c)
    case (GetSetup req)
    with Cons.prems have "path req = ''/setup''" by simp
    then have "get_setup db req = ([], Redirect ''/'')"
      using get_setup_operational [OF assms(1-3)] by simp
    with GetSetup rest show ?thesis by simp
  next
    case (PostSetup req)
    with rest show ?thesis
      by (simp add: api_setup_operational [OF assms(1-3)])
  qed
qed

lemma get_setup_setup_required:
  assumes "\<not> failing db SelectSetting" and "\<not> failing db CountAdmins"
    and "setup_required db" and "path req = ''/setup''"
  shows "get_setup db req = ([], SendFile ''public/setup.html'')"
proof -
  have "\<not> completed_flag db \<or> \<not> active_admin_exists db"
    using assms(3) by (simp add: setup_required_def operational_def)
  then show ?thesis
    using assms(1,2,4)
    by (auto simp: get_setup_def checkSetup_def isSetupCompleted_reads_flag
          hasAdminUser_reads_users setup_allowed_def)
qed

text \<open>
  Claim C4, as amended. The state is read afresh from the store on every request (the
  two queries working). While the store is operational (the flag is \<open>true\<close> and an
  active admin exists), \<open>GET /setup\<close> is redirected to \<open>/\<close>, \<open>checkSetup\<close> answers 403
  to a path under \<open>/api/setup\<close>, and the route \<open>POST /api/setup\<close>, which is registered
  without \<open>checkSetup\<close>, answers 400 \<open>Setup already completed\<close> and leaves the store as
  it is; so any sequence of requests to the two endpoints is rejected request by
  request, whatever its length. The block is not kept once one of the two conditions
  is gone: on every store in which setup is required \<open>GET /setup\<close> serves the setup
  page and \<open>POST /api/setup\<close> is not answered \<open>Setup already completed\<close>. \<open>GET /setup\<close>
  stands for a request with the path \<open>/setup\<close> as written.
\<close>

theorem setup_endpoints_blocked_while_operational:
  assumes "\<not> failing db SelectSetting" and "\<not> failing db CountAdmins"
  shows "(operational db \<longrightarrow>
            (\<forall>req. path req = ''/setup'' \<longrightarrow> get_setup db req = ([], Redirect ''/''))
          \<and> (\<forall>req. startsWith (path req) ''/api/setup'' \<longrightarrow>
                checkSetup db req
                  = ([], Respond (Json 403 [(''success'', JBool False),
                                            (''message'', JStr ''Setup already completed'')])))
          \<and> (\<forall>hash req.
                api_setup hash db req
                  = (db, [], Json 400 [(''success'', JBool False),
                                       (''message'', JStr ''Setup already completed'')]))
          \<and> (\<forall>hash calls.
                (\<forall>req. GetSetup req \<in> set calls \<longrightarrow> path req = ''/setup'') \<longrightarrow>
                setup_calls hash db calls
                  = (db, map (\<lambda>c. case c of
                                     GetSetup _ \<Rightarrow> Redirect ''/''
                                   | PostSetup _ \<Rightarrow>
                                       Json 400 [(''success'', JBool False),
                                                 (''message'', JStr ''Setup already completed'')])
                             calls)))
       \<and> (setup_required db \<longrightarrow>
            (\<forall>req. path req = ''/setup'' \<longrightarrow>
                get_setup db req = ([], SendFile ''public/setup.html''))
          \<and> (\<forall>hash req.
                snd (snd (api_setup hash db req))
                  \<noteq> Json 400 [(''success'', JBool False),
                              (''message'', JStr ''Setup already completed'')]))"
proof (intro conjI impI)
  assume op: "operational db"
  show "\<forall>req. path req = ''/setup'' \<longrightarrow> get_setup db req = ([], Redirect ''/'')"
    using get_setup_operational [OF assms op] by blast
  show "\<forall>req. startsWith (path req) ''/api/setup'' \<longrightarrow>
          checkSetup db req
            = ([], Respond (Json 403 [(''success'', JBool False),
                                      (''message'', JStr ''Setup already completed'')]))"
    using checkSetup_operational_api_setup [OF assms op] by blast
  show "\<forall>hash req.
          api_setup hash db req
            = (db, [], Json 400 [(''success'', JBool False),
                                 (''message'', JStr ''Setup already completed'')])"
    using api_setup_operational [OF assms op] by blast
  show "\<forall>hash calls.
          (\<forall>req. GetSetup req \<in> set calls \<longrightarrow> path req = ''/setup'') \<longrightarrow>
          setup_calls hash db calls
            = (db, map (\<lambda>c. case c of
                               GetSetup _ \<Rightarrow> Redirect ''/''
                             | PostSetup _ \<Rightarrow>
                                 Json 400 [(''success'', JBool False),
                                           (''message'', JStr ''Setup already completed'')])
                       calls)"
    using setup_calls_operational [OF assms op] by blast
next
  assume req: "setup_required db"
  show "\<forall>req. path req = ''/setup'' \<longrightarrow> get_setup db req = ([], SendFile ''public/setup.html'')"
    using get_setup_setup_required [OF assms req] by blast
  show "\<forall>hash req.
          snd (snd (api_setup hash db req))
            \<noteq> Json 400 [(''success'', JBool False),
                        (''message'', JStr ''Setup already completed'')]"
    using api_setup_already_completed_only_if [OF assms] req
    by (auto simp: setup_required_def)
qed

lemma cleared_setup_required: "setup_required cleared_database"
  by (simp add: setup_required_def operational_def completed_flag_def cleared_database_def)

theorem setup_endpoints_blocked_while_operational_witness:
  "operational sample_database
   \<and> get_setup sample_database (plain_request ''/setup'') = ([], Redirect ''/'')
   \<and> api_setup (\<lambda>p. p) sample_database (setup_request ''eve'' ''pw'')
       = (sample_database, [],
          Json 400 [(''success'', JBool False), (''message'', JStr ''Setup already completed'')])
   \<and> setup_calls (\<lambda>p. p) sample_database
        [PostSetup (setup_request ''eve'' ''pw''), GetSetup (plain_request ''/setup''),
         PostSetup (setup_request ''mallory'' ''x'')]
       = (sample_database,
          [Json 400 [(''success'', JBool False), (''message'', JStr ''Setup already completed'')],
           Redirect ''/'',
           Json 400 [(''success'', JBool False), (''message'', JStr ''Setup already completed'')]])
   \<and> setup_required cleared_database
   \<and> get_setup cleared_database (plain_request ''/setup'') = ([], SendFile ''public/setup.html'')
   \<and> snd (snd (api_setup (\<lambda>p. p) cleared_database (setup_request ''eve'' ''pw'')))
       \<noteq> Json 400 [(''success'', JBool False), (''message'', JStr ''Setup already completed'')]"
proof -
  have ok: "\<not> failing sample_database SelectSetting" "\<not> failing sample_database CountAdmins"
    by (simp_all add: sample_database_def)
  have ok': "\<not> failing cleared_database SelectSetting" "\<not> failing cleared_database CountAdmins"
    by (simp_all add: cleared_database_def sample_database_def)
  note inst = setup_endpoints_blocked_while_operational [OF ok]
  note inst' = setup_endpoints_blocked_while_operational [OF ok']
  have p: "path (plain_request ''/setup'') = ''/setup''"
    by (simp add: plain_request_def)
  have 1: "get_setup sample_database (plain_request ''/setup'') = ([], Redirect ''/'')"
    using inst sample_operational p by blast
  have 2: "api_setup (\<lambda>p. p) sample_database (setup_request ''eve'' ''pw'')
       = (sample_database, [],
          Json 400 [(''success'', JBool False), (''message'', JStr ''Setup already completed'')])"
    using inst sample_operational by blast
  have gets: "\<forall>req. GetSetup req \<in> set [PostSetup (setup_request ''eve'' ''pw''),
                 GetSetup (plain_request ''/setup''), PostSetup (setup_request ''mallory'' ''x'')]
               \<longrightarrow> path req = ''/setup''"
    using p by auto
  have "setup_calls (\<lambda>p. p) sample_database
        [PostSetup (setup_request ''eve'' ''pw''), GetSetup (plain_request ''/setup''),
         PostSetup (setup_request ''mallory'' ''x'')]
       = (sample_database,
          map (\<lambda>c. case c of
                     GetSetup _ \<Rightarrow> Redirect ''/''
                   | PostSetup _ \<Rightarrow>
                       Json 400 [(''success'', JBool False),
                                 (''message'', JStr ''Setup already completed'')])
           [PostSetup (setup_request ''eve'' ''pw''), GetSetup (plain_request ''/setup''),
            PostSetup (setup_request ''mallory'' ''x'')])"
    using inst sample_operational gets by blast
  then have 3: "setup_calls (\<lambda>p. p) sample_database
        [PostSetup (setup_request ''eve'' ''pw''), GetSetup (plain_request ''/setup''),
         PostSetup (setup_request ''mallory'' ''x'')]
       = (sample_database,
          [Json 400 [(''success'', JBool False), (''message'', JStr ''Setup already completed'')],
           Redirect ''/'',
           Json 400 [(''success'', JBool False), (''message'', JStr ''Setup already completed'')]])"
    by simp
  have 4: "get_setup cleared_database (plain_request ''/setup'') = ([], SendFile ''public/setup.html'')"
    using inst' cleared_setup_required p by blast
  have 5: "snd (snd (api_setup (\<lambda>p. p) cleared_database (setup_request ''eve'' ''pw'')))
       \<noteq> Json 400 [(''success'', JBool False), (''message'', JStr ''Setup already completed'')]"
    using inst' cleared_setup_required by blast
  from sample_operational 1 2 3 cleared_setup_required 4 5 show ?thesis by blast
qed

text \<open>
  Where the claim fails. The route answers 400, not 403: on the sample store
  \<open>POST /api/setup\<close> is answered 400. The block is not permanent: after the flag is
  written back to \<open>false\<close> through the store, \<open>GET /setup\<close> serves the setup page and
  \<open>POST /api/setup\<close> creates another admin. And on the operational sample store the
  requests \<open>/setup/\<close> and \<open>/SETUP\<close>, which Express hands to the route \<open>GET /setup\<close>, are
  served the setup page: \<open>checkSetup\<close> compares the path with \<open>/setup\<close> as written.
\<close>

theorem setup_block_not_permanent_counterexample:
  "operational sample_database
   \<and> status (snd (snd (api_setup (\<lambda>p. p) sample_database (setup_request ''eve'' ''pw'')))) = 400
   \<and> setSetting sample_database ''setup_completed'' ''false'' (Some 1) = Inr cleared_database
   \<and> get_setup cleared_database (plain_request ''/setup'') = ([], SendFile ''public/setup.html'')
   \<and> status (snd (snd (api_setup (\<lambda>p. p) cleared_database (setup_request ''eve'' ''pw'')))) = 200
   \<and> map (\<lambda>u. (username u, role u))
        (users (fst (api_setup (\<lambda>p. p) cleared_database (setup_request ''eve'' ''pw''))))
       = [(''admin'', ''admin''), (''alice'', ''user''), (''bob'', ''user''),
          (''carol'', ''admin''), (''eve'', ''admin'')]
   \<and> express_matches ''/setup'' ''/setup/''
   \<and> get_setup sample_database (plain_request ''/setup/'') = ([], SendFile ''public/setup.html'')
   \<and> express_matches ''/setup'' ''/SETUP''
   \<and> get_setup sample_database (plain_request ''/SETUP'') = ([], SendFile ''public/setup.html'')"
proof -
  have ok: "\<not> failing sample_database SelectSetting" "\<not> failing sample_database CountAdmins"
    "\<not> failing sample_database ReplaceSetting"
    by (simp_all add: sample_database_def)
  have ok': "\<not> failing cleared_database SelectSetting"
    "\<not> failing cleared_database CountAdmins"
    "\<not> failing cleared_database InsertUser"
    "\<not> failing cleared_database ReplaceSetting"
    by (simp_all add: cleared_database_def sample_database_def)
  have 1: "status (snd (snd (api_setup (\<lambda>p. p) sample_database (setup_request ''eve'' ''pw'')))) = 400"
    by (simp add: api_setup_operational [OF ok(1,2) sample_operational])
  have 2: "setSetting sample_database ''setup_completed'' ''false'' (Some 1) = Inr cleared_database"
    using ok(3) by (simp add: setSetting_def cleared_database_def)
  have 3: "get_setup cleared_database (plain_request ''/setup'') = ([], SendFile ''public/setup.html'')"
    using get_setup_setup_required [OF ok'(1,2) cleared_setup_required]
    by (simp add: plain_request_def)
  have fields: "body (setup_request ''eve'' ''pw'') ''username'' = Some ''eve''"
    "body (setup_request ''eve'' ''pw'') ''password'' = Some ''pw''"
    by (simp_all add: setup_request_def)
  have new: "''eve'' \<notin> set (map username (users cleared_database))"
    by (simp add: cleared_database_def sample_database_def admin_row_def alice_row_def
          bob_row_def carol_row_def)
  note made = api_setup_success [OF ok' cleared_setup_required fields(1) _ fields(2) _ new,
                of "\<lambda>p. p"]
  have 4: "status (snd (snd (api_setup (\<lambda>p. p) cleared_database (setup_request ''eve'' ''pw'')))) = 200"
    by (simp add: made)
  have 5: "map (\<lambda>u. (username u, role u))
        (users (fst (api_setup (\<lambda>p. p) cleared_database (setup_request ''eve'' ''pw''))))
       = [(''admin'', ''admin''), (''alice'', ''user''), (''bob'', ''user''),
          (''carol'', ''admin''), (''eve'', ''admin'')]"
  proof -
    have "users (fst (api_setup (\<lambda>p. p) cleared_database (setup_request ''eve'' ''pw'')))
            = users cleared_database
              @ [\<lparr>user_id = seq cleared_database + 1, username = ''eve'',
                  email = body (setup_request ''eve'' ''pw'') ''email'',
                  password_hash = ''pw'', role = ''admin'', is_active = True,
                  created_by = None\<rparr>]"
      by (simp add: made)
    then show ?thesis
      by (simp add: cleared_database_def sample_database_def admin_row_def alice_row_def
            bob_row_def carol_row_def)
  qed
  have 6: "express_matches ''/setup'' ''/setup/''" "express_matches ''/setup'' ''/SETUP''"
    by (simp_all add: express_matches_def lower_def)
  have served: "get_setup sample_database (plain_request p) = ([], SendFile ''public/setup.html'')"
    if "\<not> setup_route p" for p
    using sample_operational that
    by (simp add: get_setup_def checkSetup_def isSetupCompleted_reads_flag [OF ok(1)]
          hasAdminUser_reads_users [OF ok(2)] operational_def plain_request_def)
  have 7: "get_setup sample_database (plain_request ''/setup/'') = ([], SendFile ''public/setup.html'')"
    by (rule served) (simp add: setup_route_def startsWith_def)
  have 8: "get_setup sample_database (plain_request ''/SETUP'') = ([], SendFile ''public/setup.html'')"
    by (rule served) (simp add: setup_route_def startsWith_def)
  from sample_operational 1 2 3 4 5 6 7 8 show ?thesis by blast
qed

subsection \<open>Which routes the setup gate guards\<close>

lemma checkSetup_setup_required:
  assumes "\<not> failing db SelectSetting" and "\<not> failing db CountAdmins"
    and "setup_required db" and "\<not> setup_allowed (path req)"
  shows "checkSetup db req
           = ([], Respond (if startsWith (path req) ''/api/''
                           then Json 200 [(''success'', JBool False),
                                          (''requiresSetup'', JBool True),
                                          (''message'', JStr ''Initial setup required''),
                                          (''redirect'', JStr ''/setup'')]
                           else Redirect ''/setup''))"
proof -
  have "\<not> completed_flag db \<or> \<not> active_admin_exists db"
    using assms(3) by (simp add: setup_required_def operational_def)
  then show ?thesis
    using assms(1,2,4)
    by (auto simp: checkSetup_def isSetupCompleted_reads_flag hasAdminUser_reads_users)
qed

lemma guarded_routes:
  "CheckSetup \<in> set (middlewares r)
     \<longleftrightarrow> r = GET_setup \<or> r = GET_root \<or> r = GET_api_browse \<or> r = GET_download"
  by (cases r) simp_all

text \<open>
  Claim C3, as amended. The routes registered with \<open>checkSetup\<close> are \<open>GET /setup\<close>,
  \<open>GET /\<close>, \<open>GET /api/browse\<close> and \<open>GET /download/*\<close>, and no other. While setup is
  required (and the store's two queries work), a request to one of them with a path
  outside the allow-list is answered by the gate: 200 with \<open>requiresSetup\<close> for a path
  under \<open>/api/\<close>, a redirect to \<open>/setup\<close> otherwise; nothing is logged, and neither the
  later middleware nor the handler runs.
\<close>

theorem checkSetup_guards_its_routes:
  assumes "\<not> failing db SelectSetting" and "\<not> failing db CountAdmins"
    and "setup_required db"
  shows "(\<forall>r. CheckSetup \<in> set (middlewares r)
               \<longleftrightarrow> r = GET_setup \<or> r = GET_root \<or> r = GET_api_browse \<or> r = GET_download)
       \<and> (\<forall>r req. CheckSetup \<in> set (middlewares r) \<and> \<not> setup_allowed (path req) \<longrightarrow>
             dispatch db r req
               = ([], Respond (if startsWith (path req) ''/api/''
                               then Json 200 [(''success'', JBool False),
                                              (''requiresSetup'', JBool True),
                                              (''message'', JStr ''Initial setup required''),
                                              (''redirect'', JStr ''/setup'')]
                               else Redirect ''/setup'')))"
proof (intro conjI allI impI)
  fix r
  show "CheckSetup \<in> set (middlewares r)
          \<longleftrightarrow> r = GET_setup \<or> r = GET_root \<or> r = GET_api_browse \<or> r = GET_download"
    by (rule guarded_routes)
next
  fix r and req :: request
  assume h: "CheckSetup \<in> set (middlewares r) \<and> \<not> setup_allowed (path req)"
  then obtain ms where ms: "middlewares r = CheckSetup # ms"
    by (cases r) simp_all
  from h have "checkSetup db req
           = ([], Respond (if startsWith (path req) ''/api/''
                           then Json 200 [(''success'', JBool False),
                                          (''requiresSetup'', JBool True),
                                          (''message'', JStr ''Initial setup required''),
                                          (''redirect'', JStr ''/setup'')]
                           else Redirect ''/setup''))"
    using checkSetup_setup_required [OF assms] by blast
  then show "dispatch db r req
               = ([], Respond (if startsWith (path req) ''/api/''
                               then Json 200 [(''success'', JBool False),
                                              (''requiresSetup'', JBool True),
                                              (''message'', JStr ''Initial setup required''),
                                              (''redirect'', JStr ''/setup'')]
                               else Redirect ''/setup''))"
    by (simp add: dispatch_def ms)
qed

lemma fresh_setup_required: "setup_required fresh_database"
  by (simp add: setup_required_def operational_def active_admin_exists_def fresh_database_def)

theorem checkSetup_guards_its_routes_witness:
  "setup_required fresh_database
   \<and> \<not> setup_allowed (path (plain_request ''/download/report.pdf''))
   \<and> dispatch fresh_database GET_download (plain_request ''/download/report.pdf'')
       = ([], Respond (Redirect ''/setup''))
   \<and> dispatch fresh_database GET_api_browse (plain_request ''/api/browse'')
       = ([], Respond (Json 200 [(''success'', JBool False),
                                 (''requiresSetup'', JBool True),
                                 (''message'', JStr ''Initial setup required''),
                                 (''redirect'', JStr ''/setup'')]))"
proof -
  have ok: "\<not> failing fresh_database SelectSetting" "\<not> failing fresh_database CountAdmins"
    by (simp_all add: fresh_database_def)
  note inst = checkSetup_guards_its_routes [OF ok fresh_setup_required]
  have out: "\<not> setup_allowed (path (plain_request ''/download/report.pdf''))"
    "\<not> setup_allowed (path (plain_request ''/api/browse''))"
    by (simp_all add: setup_allowed_def startsWith_def plain_request_def)
  have api: "\<not> startsWith (path (plain_request ''/download/report.pdf'')) ''/api/''"
    "startsWith (path (plain_request ''/api/browse'')) ''/api/''"
    by (simp_all add: startsWith_def plain_request_def)
  have g: "CheckSetup \<in> set (middlewares GET_download)"
    "CheckSetup \<in> set (middlewares GET_api_browse)"
    by simp_all
  have 1: "dispatch fresh_database GET_download (plain_request ''/download/report.pdf'')
       = ([], Respond (Redirect ''/setup''))"
    using inst g(1) out(1) api(1) by simp
  have 2: "dispatch fresh_database GET_api_browse (plain_request ''/api/browse'')
       = ([], Respond (Json 200 [(''success'', JBool False),
                                 (''requiresSetup'', JBool True),
                                 (''message'', JStr ''Initial setup required''),
                                 (''redirect'', JStr ''/setup'')]))"
    using inst g(2) out(2) api(2) by simp
  from fresh_setup_required out(1) 1 2 show ?thesis by blast
qed

text \<open>
  Not every route is guarded: while setup is required, \<open>GET /login\<close> and
  \<open>GET /api/settings\<close>, whose paths are outside the allow-list, reach their handlers.
\<close>

theorem unguarded_route_counterexample:
  "setup_required fresh_database
   \<and> \<not> setup_allowed (path (plain_request ''/login''))
   \<and> dispatch fresh_database GET_login (plain_request ''/login'')
       = ([], Next (plain_request ''/login''))
   \<and> \<not> setup_allowed (path (plain_request ''/api/settings''))
   \<and> dispatch fresh_database GET_api_settings (plain_request ''/api/settings'')
       = ([], Next (plain_request ''/api/settings''))"
  using fresh_setup_required
  by (simp add: dispatch_def setup_allowed_def startsWith_def plain_request_def)

subsection \<open>Resolved paths\<close>

lemma split_sep_no_sep: "CHR ''/'' \<notin> set s \<Longrightarrow> split_sep s = [s]"
  by (induction s) auto

lemma split_sep_append:
  "CHR ''/'' \<notin> set s \<Longrightarrow> split_sep (s @ CHR ''/'' # t) = s # split_sep t"
  by (induction s) auto

lemma split_sep_nonempty: "split_sep p \<noteq> []"
  by (induction p) (auto split: list.splits)

lemma split_sep_segments: "s \<in> set (split_sep p) \<Longrightarrow> CHR ''/'' \<notin> set s"
proof (induction p arbitrary: s)
  case Nil
  then show ?case by simp
next
  case (Cons c p)
  show ?case
  proof (cases "c = CHR ''/''")
    case True
    with Cons show ?thesis by auto
  next
    case False
    obtain x xs where sp: "split_sep p = x # xs"
      using split_sep_nonempty [of p] by (cases "split_sep p") auto
    with Cons False show ?thesis by (auto split: list.splits)
  qed
qed

text \<open>Segments as \<open>path.resolve\<close> leaves them: not empty, without a separator.\<close>

lemma normalizeString_segments:
  assumes "\<forall>s \<in> set res. s \<noteq> [] \<and> CHR ''/'' \<notin> set s"
    and "\<forall>s \<in> set ss. CHR ''/'' \<notin> set s"
  shows "\<forall>s \<in> set (normalizeString up res ss). s \<noteq> [] \<and> CHR ''/'' \<notin> set s"
  using assms
proof (induction ss arbitrary: res)
  case Nil
  then show ?case by simp
next
  case (Cons s ss)
  have rest: "\<forall>x \<in> set ss. CHR ''/'' \<notin> set x"
    using Cons.prems(2) by simp
  have ih: "\<forall>x \<in> set (normalizeString up r ss). x \<noteq> [] \<and> CHR ''/'' \<notin> set x"
    if "\<forall>x \<in> set r. x \<noteq> [] \<and> CHR ''/'' \<notin> set x" for r
    using Cons.IH [OF that rest] .
  have keep: "\<forall>x \<in> set (normalizeString up res ss). x \<noteq> [] \<and> CHR ''/'' \<notin> set x"
    using ih Cons.prems(1) by blast
  have pop: "\<forall>x \<in> set (normalizeString up (butlast res) ss). x \<noteq> [] \<and> CHR ''/'' \<notin> set x"
  proof (rule ih)
    show "\<forall>x \<in> set (butlast res). x \<noteq> [] \<and> CHR ''/'' \<notin> set x"
      using Cons.prems(1) by (meson in_set_butlastD)
  qed
  have dots: "\<forall>x \<in> set (normalizeString up (res @ [''..'']) ss). x \<noteq> [] \<and> CHR ''/'' \<notin> set x"
  proof (rule ih)
    show "\<forall>x \<in> set (res @ [''..'']). x \<noteq> [] \<and> CHR ''/'' \<notin> set x"
      using Cons.prems(1) by auto
  qed
  have push: "\<forall>x \<in> set (normalizeString up (res @ [s]) ss). x \<noteq> [] \<and> CHR ''/'' \<notin> set x"
    if "s \<noteq> []"
  proof (rule ih)
    show "\<forall>x \<in> set (res @ [s]). x \<noteq> [] \<and> CHR ''/'' \<notin> set x"
      using Cons.prems that by auto
  qed
  show ?case
  proof (cases "s = [] \<or> s = ''.''")
    case True
    then show ?thesis using keep by auto
  next
    case False
    note plain = False
    then have ne: "s \<noteq> []" by simp
    show ?thesis
    proof (cases "s = ''..''")
      case True
      then show ?thesis using plain keep pop dots by simp
    next
      case False
      then show ?thesis using plain push [OF ne] by simp
    qed
  qed
qed

lemma gather_absolute:
  "\<exists>p \<in> set ps. p \<noteq> [] \<and> hd p = CHR ''/'' \<Longrightarrow> snd (gather ps acc) = True"
  by (induction ps acc rule: gather.induct) auto

lemma path_resolve_absolute:
  assumes "\<exists>p \<in> set args. p \<noteq> [] \<and> hd p = CHR ''/''"
  shows "\<exists>segs. path_resolve cwd args = CHR ''/'' # join_sep segs
               \<and> (\<forall>s \<in> set segs. s \<noteq> [] \<and> CHR ''/'' \<notin> set s)"
proof -
  obtain j a where g: "gather (rev args @ [cwd]) [] = (j, a)"
    by (cases "gather (rev args @ [cwd]) []")
  have "\<exists>p \<in> set (rev args @ [cwd]). p \<noteq> [] \<and> hd p = CHR ''/''"
    using assms by auto
  then have "snd (gather (rev args @ [cwd]) []) = True"
    by (rule gather_absolute)
  with g have a: "a" by simp
  have "\<forall>s \<in> set (normalizeString False [] (split_sep j)). s \<noteq> [] \<and> CHR ''/'' \<notin> set s"
    by (rule normalizeString_segments) (auto dest: split_sep_segments)
  with g a show ?thesis
    by (auto simp: path_resolve_def)
qed

lemma split_sep_join_sep:
  assumes "\<forall>s \<in> set segs. CHR ''/'' \<notin> set s" and "segs \<noteq> []"
  shows "split_sep (join_sep segs) = segs"
  using assms
proof (induction segs rule: join_sep.induct)
  case 1
  then show ?case by simp
next
  case (2 s)
  then show ?case by (simp add: split_sep_no_sep)
next
  case (3 s t ss)
  then show ?case by (simp add: split_sep_append)
qed

lemma path_segments_absolute:
  assumes "\<forall>s \<in> set segs. s \<noteq> [] \<and> CHR ''/'' \<notin> set s"
  shows "path_segments (CHR ''/'' # join_sep segs) = segs"
proof (cases "segs = []")
  case True
  then show ?thesis by (simp add: path_segments_def)
next
  case False
  with assms have "split_sep (join_sep segs) = segs"
    by (simp add: split_sep_join_sep)
  with assms show ?thesis
    by (simp add: path_segments_def filter_id_conv)
qed

lemma join_sep_append:
  "join_sep (a @ b) =
     (if a = [] then join_sep b
      else if b = [] then join_sep a
      else join_sep a @ CHR ''/'' # join_sep b)"
proof (induction a rule: join_sep.induct)
  case 1
  then show ?case by simp
next
  case (2 s)
  then show ?case by (cases b) simp_all
next
  case (3 s t ss)
  then show ?case by simp
qed

lemma join_sep_prefix: "prefix a b \<Longrightarrow> prefix (join_sep a) (join_sep b)"
  by (auto simp: prefix_def join_sep_append)

text \<open>With an absolute \<open>__dirname\<close>, the three paths of \<open>isValidPath\<close> are absolute.\<close>

lemma corsPath_absolute:
  assumes "dirname e \<noteq> []" and "hd (dirname e) = CHR ''/''"
  shows "\<exists>segs. corsPath e = CHR ''/'' # join_sep segs
               \<and> (\<forall>s \<in> set segs. s \<noteq> [] \<and> CHR ''/'' \<notin> set s)"
  unfolding corsPath_def using assms by (intro path_resolve_absolute) simp

lemma NAS_ROOT_absolute:
  assumes "dirname e \<noteq> []" and "hd (dirname e) = CHR ''/''"
  shows "\<exists>segs. NAS_ROOT e = CHR ''/'' # join_sep segs
               \<and> (\<forall>s \<in> set segs. s \<noteq> [] \<and> CHR ''/'' \<notin> set s)"
  unfolding NAS_ROOT_def using assms by (intro path_resolve_absolute) simp

lemma browse_fullPath_absolute:
  assumes "dirname e \<noteq> []" and "hd (dirname e) = CHR ''/''"
  shows "\<exists>segs. browse_fullPath e p = CHR ''/'' # join_sep segs
               \<and> (\<forall>s \<in> set segs. s \<noteq> [] \<and> CHR ''/'' \<notin> set s)"
proof -
  from NAS_ROOT_absolute [OF assms] have "NAS_ROOT e \<noteq> [] \<and> hd (NAS_ROOT e) = CHR ''/''"
    by auto
  then show ?thesis
    unfolding browse_fullPath_def by (intro path_resolve_absolute) simp
qed

lemma inside_startsWith:
  assumes "dir = CHR ''/'' # join_sep dsegs"
    and "\<forall>s \<in> set dsegs. s \<noteq> [] \<and> CHR ''/'' \<notin> set s"
    and "p = CHR ''/'' # join_sep psegs"
    and "\<forall>s \<in> set psegs. s \<noteq> [] \<and> CHR ''/'' \<notin> set s"
    and "inside dir p"
  shows "startsWith p dir"
proof -
  have "prefix dsegs psegs"
    using assms by (simp add: inside_def path_segments_absolute)
  then have "prefix (join_sep dsegs) (join_sep psegs)"
    by (rule join_sep_prefix)
  with assms(1,3) show ?thesis by (simp add: startsWith_def)
qed

lemma isValidPath_browse:
  "isValidPath e p
     = (startsWith (browse_fullPath e p) (NAS_ROOT e)
        \<and> \<not> startsWith (browse_fullPath e p) (corsPath e))"
  by (simp add: isValidPath_def browse_fullPath_def Let_def)

text \<open>
  Claim C8. \<open>browse_fullPath e p\<close> is the path \<open>isValidPath\<close> resolves for the request
  \<open>p\<close> (line 93; the browse handler resolves the same at line 445). When it lies in the
  excluded subtree, that is, its segments begin with those of the installation
  directory (it is that directory or below it), \<open>isValidPath\<close> rejects \<open>p\<close>, whether or
  not the path is also under the root. \<open>__dirname\<close> is an absolute path.
\<close>

theorem isValidPath_rejects_excluded:
  assumes "dirname e \<noteq> []" and "hd (dirname e) = CHR ''/''"
    and "inside (corsPath e) (browse_fullPath e p)"
  shows "\<not> isValidPath e p"
proof -
  obtain csegs where c: "corsPath e = CHR ''/'' # join_sep csegs"
    "\<forall>s \<in> set csegs. s \<noteq> [] \<and> CHR ''/'' \<notin> set s"
    using corsPath_absolute [OF assms(1,2)] by blast
  obtain fsegs where f: "browse_fullPath e p = CHR ''/'' # join_sep fsegs"
    "\<forall>s \<in> set fsegs. s \<noteq> [] \<and> CHR ''/'' \<notin> set s"
    using browse_fullPath_absolute [OF assms(1,2)] by blast
  have "startsWith (browse_fullPath e p) (corsPath e)"
    using inside_startsWith [OF c f assms(3)] .
  then show ?thesis by (simp add: isValidPath_browse)
qed

theorem isValidPath_rejects_excluded_witness:
  "dirname sample_env \<noteq> [] \<and> hd (dirname sample_env) = CHR ''/''
   \<and> browse_fullPath sample_env ''/CORS/data/nas_server.db'' = ''/srv/nas/CORS/data/nas_server.db''
   \<and> inside (NAS_ROOT sample_env) (browse_fullPath sample_env ''/CORS/data/nas_server.db'')
   \<and> inside (corsPath sample_env) (browse_fullPath sample_env ''/CORS/data/nas_server.db'')
   \<and> \<not> isValidPath sample_env ''/CORS/data/nas_server.db''"
proof -
  have h1: "dirname sample_env \<noteq> []" and h2: "hd (dirname sample_env) = CHR ''/''"
    by (simp_all add: sample_env_def)
  have full: "browse_fullPath sample_env ''/CORS/data/nas_server.db''
                = ''/srv/nas/CORS/data/nas_server.db''"
    by (simp add: browse_fullPath_def NAS_ROOT_def path_resolve_def strip_leading_slashes_def
          sample_env_def)
  have root: "inside (NAS_ROOT sample_env) (browse_fullPath sample_env ''/CORS/data/nas_server.db'')"
    unfolding full by (simp add: inside_def path_segments_def NAS_ROOT_def path_resolve_def
          sample_env_def)
  have h3: "inside (corsPath sample_env) (browse_fullPath sample_env ''/CORS/data/nas_server.db'')"
    unfolding full by (simp add: inside_def path_segments_def corsPath_def path_resolve_def
          sample_env_def)
  from h1 h2 full root h3 isValidPath_rejects_excluded [OF h1 h2 h3] show ?thesis by blast
qed

text \<open>
  What the prefix test does get right: a request that resolves to the root or below it,
  and not to a path that starts with the installation directory's string, is accepted;
  and a request without a leading separator is opened by the download handler at the
  very path the guard tested.
\<close>

lemma isValidPath_accepts_under_root:
  assumes "dirname e \<noteq> []" and "hd (dirname e) = CHR ''/''"
    and "inside (NAS_ROOT e) (browse_fullPath e p)"
    and "\<not> startsWith (browse_fullPath e p) (corsPath e)"
  shows "isValidPath e p"
proof -
  obtain rsegs where r: "NAS_ROOT e = CHR ''/'' # join_sep rsegs"
    "\<forall>s \<in> set rsegs. s \<noteq> [] \<and> CHR ''/'' \<notin> set s"
    using NAS_ROOT_absolute [OF assms(1,2)] by blast
  obtain fsegs where f: "browse_fullPath e p = CHR ''/'' # join_sep fsegs"
    "\<forall>s \<in> set fsegs. s \<noteq> [] \<and> CHR ''/'' \<notin> set s"
    using browse_fullPath_absolute [OF assms(1,2)] by blast
  have "startsWith (browse_fullPath e p) (NAS_ROOT e)"
    using inside_startsWith [OF r f assms(3)] .
  with assms(4) show ?thesis by (simp add: isValidPath_browse)
qed

lemma download_fullPath_without_leading_separator:
  "strip_leading_slashes p = p \<Longrightarrow> download_fullPath e p = browse_fullPath e p"
  by (simp add: download_fullPath_def browse_fullPath_def)

subsection \<open>Where the path guard lets a request out of the root\<close>

text \<open>
  Claim C1 fails on the code. \<open>isValidPath\<close> strips the leading separators of the
  request before it resolves it; the download handler resolves the request as it came.
  For the request \<open>/etc/passwd\<close> (the URL \<open>/download//etc/passwd\<close>) the guard validates
  \<open>/srv/nas/etc/passwd\<close> and the handler opens \<open>/etc/passwd\<close>, outside the root: so the
  handler answers with \<open>req.user\<close> set, and so the whole route answers the logged-in
  user alice once setup is done.
\<close>

theorem download_opens_unvalidated_path:
  "NAS_ROOT sample_env = ''/srv/nas''
   \<and> isValidPath sample_env ''/etc/passwd''
   \<and> browse_fullPath sample_env ''/etc/passwd'' = ''/srv/nas/etc/passwd''
   \<and> download_fullPath sample_env ''/etc/passwd'' = ''/etc/passwd''
   \<and> \<not> inside (NAS_ROOT sample_env) (download_fullPath sample_env ''/etc/passwd'')
   \<and> download_handler sample_env sample_fs
        ((request_by alice_row ''/download//etc/passwd'' ''/etc/passwd'')\<lparr>user := Some alice_row\<rparr>)
       = ([LogFileAccess ''DOWNLOAD_SUCCESS'' ''/etc/passwd'' ''alice'' True],
          Stream ''/etc/passwd'')
   \<and> download_route sample_env sample_fs sample_database
        (request_by alice_row ''/download//etc/passwd'' ''/etc/passwd'')
       = ([LogFileAccess ''DOWNLOAD_SUCCESS'' ''/etc/passwd'' ''alice'' True],
          Stream ''/etc/passwd'')"
proof -
  have root: "NAS_ROOT sample_env = ''/srv/nas''"
    by (simp add: NAS_ROOT_def path_resolve_def sample_env_def)
  have cors: "corsPath sample_env = ''/srv/nas/CORS''"
    by (simp add: corsPath_def path_resolve_def sample_env_def)
  have seen: "browse_fullPath sample_env ''/etc/passwd'' = ''/srv/nas/etc/passwd''"
    unfolding browse_fullPath_def root
    by (simp add: path_resolve_def strip_leading_slashes_def sample_env_def)
  have opened: "download_fullPath sample_env ''/etc/passwd'' = ''/etc/passwd''"
    unfolding download_fullPath_def root
    by (simp add: path_resolve_def sample_env_def)
  have valid: "isValidPath sample_env ''/etc/passwd''"
    by (simp add: isValidPath_browse seen root cors startsWith_def)
  have out: "\<not> inside (NAS_ROOT sample_env) (download_fullPath sample_env ''/etc/passwd'')"
    by (simp add: opened root inside_def path_segments_def)
  let ?req = "request_by alice_row ''/download//etc/passwd'' ''/etc/passwd''"
  have served: "download_handler sample_env sample_fs (?req\<lparr>user := Some alice_row\<rparr>)
       = ([LogFileAccess ''DOWNLOAD_SUCCESS'' ''/etc/passwd'' ''alice'' True],
          Stream ''/etc/passwd'')"
    by (simp add: download_handler_def Let_def valid opened request_by_def sample_fs_def
          alice_row_def)
  have attached: "attachUser sample_database ?req = ([], ?req\<lparr>user := Some alice_row\<rparr>)"
    by (simp add: attachUser_def session_userId_def request_by_def getUserById_def
          sample_database_def admin_row_def alice_row_def)
  have ok: "\<not> failing sample_database SelectSetting" "\<not> failing sample_database CountAdmins"
    by (simp_all add: sample_database_def)
  have passed: "dispatch sample_database GET_download (?req\<lparr>user := Some alice_row\<rparr>)
                  = ([], Next (?req\<lparr>user := Some alice_row\<rparr>))"
    using sample_operational
    by (simp add: dispatch_def checkSetup_def isSetupCompleted_reads_flag [OF ok(1)]
          hasAdminUser_reads_users [OF ok(2)] operational_def setup_route_def startsWith_def
          requireAuth_def session_userId_def request_by_def alice_row_def)
  have routed: "download_route sample_env sample_fs sample_database ?req
       = ([LogFileAccess ''DOWNLOAD_SUCCESS'' ''/etc/passwd'' ''alice'' True],
          Stream ''/etc/passwd'')"
    by (simp add: download_route_def attached passed served)
  from root valid seen opened out served routed show ?thesis by blast
qed

text \<open>
  Claim C2 fails on the code. The test is a prefix test on strings, and a sibling of the
  root whose name begins with the root's name passes it: the request
  \<open>../nas-private/key\<close> leaves \<open>/srv/nas\<close> and is accepted. In the other direction
  \<open>CORS-old/notes\<close> is under the root and outside the installation directory, and is
  rejected.
\<close>

theorem isValidPath_accepts_sibling_of_root:
  "NAS_ROOT sample_env = ''/srv/nas''
   \<and> corsPath sample_env = ''/srv/nas/CORS''
   \<and> browse_fullPath sample_env ''../nas-private/key'' = ''/srv/nas-private/key''
   \<and> \<not> inside (NAS_ROOT sample_env) (browse_fullPath sample_env ''../nas-private/key'')
   \<and> isValidPath sample_env ''../nas-private/key''
   \<and> browse_fullPath sample_env ''CORS-old/notes'' = ''/srv/nas/CORS-old/notes''
   \<and> inside (NAS_ROOT sample_env) (browse_fullPath sample_env ''CORS-old/notes'')
   \<and> \<not> inside (corsPath sample_env) (browse_fullPath sample_env ''CORS-old/notes'')
   \<and> \<not> isValidPath sample_env ''CORS-old/notes''"
proof -
  have root: "NAS_ROOT sample_env = ''/srv/nas''"
    by (simp add: NAS_ROOT_def path_resolve_def sample_env_def)
  have cors: "corsPath sample_env = ''/srv/nas/CORS''"
    by (simp add: corsPath_def path_resolve_def sample_env_def)
  have a: "browse_fullPath sample_env ''../nas-private/key'' = ''/srv/nas-private/key''"
    unfolding browse_fullPath_def root
    by (simp add: path_resolve_def strip_leading_slashes_def sample_env_def)
  have b: "browse_fullPath sample_env ''CORS-old/notes'' = ''/srv/nas/CORS-old/notes''"
    unfolding browse_fullPath_def root
    by (simp add: path_resolve_def strip_leading_slashes_def sample_env_def)
  have 1: "\<not> inside (NAS_ROOT sample_env) (browse_fullPath sample_env ''../nas-private/key'')"
    by (simp add: a root inside_def path_segments_def)
  have 2: "isValidPath sample_env ''../nas-private/key''"
    by (simp add: isValidPath_browse a root cors startsWith_def)
  have 3: "inside (NAS_ROOT sample_env) (browse_fullPath sample_env ''CORS-old/notes'')"
    by (simp add: b root inside_def path_segments_def)
  have 4: "\<not> inside (corsPath sample_env) (browse_fullPath sample_env ''CORS-old/notes'')"
    by (simp add: b cors inside_def path_segments_def)
  have 5: "\<not> isValidPath sample_env ''CORS-old/notes''"
    by (simp add: isValidPath_browse b root cors startsWith_def)
  from root cors a 1 2 b 3 4 5 show ?thesis by blast
qed

subsection \<open>The fixed window\<close>

lemma rateLimiter_other:
  "ip req \<noteq> k \<Longrightarrow> fst (rateLimiter w n cl req now) k = cl k"
  by (cases "cl (ip req)") (simp_all add: rateLimiter_def Let_def)

lemma rateLimiter_opens:
  assumes "1 \<le> n" and "ip req = k"
    and "cl k = None \<or> (\<exists>c. cl k = Some c \<and> now > resetTime c)"
  shows "rateLimiter w n cl req now
           = (cl(k \<mapsto> \<lparr>count = 1, resetTime = now + w\<rparr>), [], Next req)"
  using assms by (auto simp: rateLimiter_def Let_def)

lemma rateLimiter_counts:
  assumes "ip req = k" and "cl k = Some \<lparr>count = c, resetTime = r\<rparr>" and "now \<le> r"
  shows "fst (rateLimiter w n cl req now) k = Some \<lparr>count = c + 1, resetTime = r\<rparr>"
    and "snd (snd (rateLimiter w n cl req now))
           = (if c + 1 \<le> n then Next req else Respond too_many_requests)"
  using assms by (auto simp: rateLimiter_def Let_def)

lemma sweep_keeps:
  "cl k = Some c \<Longrightarrow> now \<le> resetTime c \<Longrightarrow> sweep cl now k = Some c"
  by (simp add: sweep_def)

lemma sweep_entry: "sweep cl now k = cl k \<or> sweep cl now k = None"
  by (cases "cl k") (simp_all add: sweep_def)

lemma first_allowed_Nil: "first_allowed n [] = []"
  by (simp add: first_allowed_def)

lemma first_allowed_Cons:
  "first_allowed n (r # rs) =
     (if 1 \<le> n then Next r # first_allowed (n - 1) rs
      else Respond too_many_requests # first_allowed n rs)"
proof (cases "1 \<le> n")
  case True
  then have "nat n = Suc (nat (n - 1))" by simp
  with True show ?thesis by (simp add: first_allowed_def)
next
  case False
  then have "nat n = 0" "nat (n - 1) = 0" by simp_all
  with False show ?thesis by (simp add: first_allowed_def)
qed

lemma first_allowed_nonpositive: "n \<le> 0 \<Longrightarrow> m \<le> 0 \<Longrightarrow> first_allowed n rs = first_allowed m rs"
  by (simp add: first_allowed_def)

text \<open>
  Inside a window: the client's entry counts \<open>c\<close> and ends at \<open>r\<close>, and nothing happens
  after \<open>r\<close>. The client's next requests pass while the count stays within the limit.
\<close>

lemma serve_inside_window:
  assumes "cl k = Some \<lparr>count = c, resetTime = r\<rparr>"
    and "\<forall>ev \<in> set evs. event_time ev \<le> r"
  shows "fst (serve w n cl evs) k
           = Some \<lparr>count = c + int (length (requests_by k evs)), resetTime = r\<rparr>
         \<and> answers_to k (snd (serve w n cl evs)) = first_allowed (n - c) (requests_by k evs)"
  using assms
proof (induction evs arbitrary: cl c)
  case Nil
  then show ?case by (simp add: answers_to_def first_allowed_Nil)
next
  case (Cons ev evs)
  have later: "\<forall>ev \<in> set evs. event_time ev \<le> r"
    using Cons.prems(2) by simp
  show ?case
  proof (cases ev)
    case (Sweep now)
    with Cons.prems have "sweep cl now k = Some \<lparr>count = c, resetTime = r\<rparr>"
      by (simp add: sweep_keeps)
    with Cons.IH [of "sweep cl now" c] later Sweep show ?thesis by simp
  next
    case (Request req now)
    obtain cl' logs answer where step: "rateLimiter w n cl req now = (cl', logs, answer)"
      by (cases "rateLimiter w n cl req now")
    obtain cl'' answers where rest: "serve w n cl' evs = (cl'', answers)"
      by (cases "serve w n cl' evs")
    show ?thesis
    proof (cases "ip req = k")
      case False
      then have "cl' k = Some \<lparr>count = c, resetTime = r\<rparr>"
        using rateLimiter_other [of req k w n cl now] step Cons.prems(1) by simp
      with Cons.IH [of cl' c] later Request step rest False show ?thesis
        by (simp add: answers_to_def)
    next
      case True
      have now: "now \<le> r" using Cons.prems(2) Request by simp
      have entry: "cl' k = Some \<lparr>count = c + 1, resetTime = r\<rparr>"
        using rateLimiter_counts(1) [of req k cl c r now w n] True Cons.prems(1) now step
        by simp
      have ans: "answer = (if c + 1 \<le> n then Next req else Respond too_many_requests)"
        using rateLimiter_counts(2) [of req k cl c r now w n] True Cons.prems(1) now step
        by simp
      have tail: "n - c - 1 = n - (c + 1)" by simp
      from Cons.IH [of cl' "c + 1"] entry later rest
      have ih: "cl'' k = Some \<lparr>count = c + 1 + int (length (requests_by k evs)), resetTime = r\<rparr>"
        "answers_to k answers = first_allowed (n - (c + 1)) (requests_by k evs)"
        by simp_all
      show ?thesis
      proof (cases "c + 1 \<le> n")
        case True
        with Request step rest \<open>ip req = k\<close> ih ans show ?thesis
          by (simp add: answers_to_def first_allowed_Cons tail)
      next
        case False
        then have "first_allowed (n - (c + 1)) (requests_by k evs)
                     = first_allowed (n - c) (requests_by k evs)"
          by (intro first_allowed_nonpositive) simp_all
        with False Request step rest \<open>ip req = k\<close> ih ans show ?thesis
          by (simp add: answers_to_def first_allowed_Cons)
      qed
    qed
  qed
qed

text \<open>A window from its first request on.\<close>

lemma serve_window:
  assumes "1 \<le> n" and "ip req = k"
    and "cl k = None \<or> (\<exists>c. cl k = Some c \<and> now > resetTime c)"
    and "\<forall>ev \<in> set evs. event_time ev \<le> now + w"
  shows "fst (serve w n cl (Request req now # evs)) k
           = Some \<lparr>count = 1 + int (length (requests_by k evs)), resetTime = now + w\<rparr>
         \<and> answers_to k (snd (serve w n cl (Request req now # evs)))
             = first_allowed n (req # requests_by k evs)"
proof -
  let ?cl = "cl(k \<mapsto> \<lparr>count = 1, resetTime = now + w\<rparr>)"
  have step: "rateLimiter w n cl req now = (?cl, [], Next req)"
    using rateLimiter_opens [of n req k cl now w] assms(1-3) by simp
  have entry: "?cl k = Some \<lparr>count = 1, resetTime = now + w\<rparr>" by simp
  obtain cl'' answers where rest: "serve w n ?cl evs = (cl'', answers)"
    by (cases "serve w n ?cl evs")
  from serve_inside_window [of ?cl k 1 "now + w" evs w n] entry assms(4) rest
  have "cl'' k = Some \<lparr>count = 1 + int (length (requests_by k evs)), resetTime = now + w\<rparr>"
    "answers_to k answers = first_allowed (n - 1) (requests_by k evs)"
    by simp_all
  with step rest assms(1,2) show ?thesis
    by (simp add: answers_to_def first_allowed_Cons)
qed

text \<open>Between the client's requests: its entry stays or the sweep removes it.\<close>

lemma serve_gap:
  assumes "requests_by k gap = []"
  shows "(fst (serve w n cl gap) k = cl k \<or> fst (serve w n cl gap) k = None)
         \<and> answers_to k (snd (serve w n cl gap)) = []"
  using assms
proof (induction gap arbitrary: cl)
  case Nil
  then show ?case by (simp add: answers_to_def)
next
  case (Cons ev gap)
  show ?case
  proof (cases ev)
    case (Sweep now)
    with Cons.prems have "requests_by k gap = []" by simp
    from Cons.IH [OF this, of "sweep cl now"] sweep_entry [of cl now k] Sweep show ?thesis
      by auto
  next
    case (Request req now)
    with Cons.prems have other: "ip req \<noteq> k" and gap: "requests_by k gap = []"
      by (auto split: if_splits)
    obtain cl' logs answer where step: "rateLimiter w n cl req now = (cl', logs, answer)"
      by (cases "rateLimiter w n cl req now")
    obtain cl'' answers where rest: "serve w n cl' gap = (cl'', answers)"
      by (cases "serve w n cl' gap")
    have "cl' k = cl k"
      using rateLimiter_other [OF other, of w n cl now] step by simp
    with Cons.IH [OF gap, of cl'] Request step rest other show ?thesis
      by (auto simp: answers_to_def)
  qed
qed

lemma serve_append:
  "serve w n cl (evs @ evs')
     = (fst (serve w n (fst (serve w n cl evs)) evs'),
        snd (serve w n cl evs) @ snd (serve w n (fst (serve w n cl evs)) evs'))"
proof (induction evs arbitrary: cl)
  case Nil
  then show ?case by simp
next
  case (Cons ev evs)
  show ?case
  proof (cases ev)
    case (Sweep now)
    with Cons show ?thesis by simp
  next
    case (Request req now)
    with Cons show ?thesis
      by (simp split: prod.splits)
  qed
qed

lemma answers_to_append: "answers_to k (xs @ ys) = answers_to k xs @ answers_to k ys"
  by (simp add: answers_to_def)

lemma module_limiters_positive:
  "1 \<le> snd loginLimiter \<and> 1 \<le> snd generalLimiter \<and> 1 \<le> snd fileLimiter"
  by (simp add: loginLimiter_def generalLimiter_def fileLimiter_def)

text \<open>
  The window of any limiter with a maximum of at least 1. For a limiter with window
  \<open>w\<close> and a maximum \<open>n\<close> of at least 1, and a client \<open>k\<close>: a request of
  \<open>k\<close> at time \<open>t0\<close> that finds no entry, or an entry whose reset time has passed, opens
  a window with count 1 that ends at \<open>t0 + w\<close>. Of the requests of \<open>k\<close> up to then,
  that one included, exactly the first \<open>n\<close> pass and every later one is answered 429,
  whatever other clients and the sweep do meanwhile. After the window, whether or not a
  sweep has removed the entry, the next request of \<open>k\<close>, at \<open>t1 > t0 + w\<close>, sets the count
  to 1 and the reset time to \<open>t1 + w\<close>, and again exactly the first \<open>n\<close> requests of the
  new window pass, that one included.
\<close>

lemma fixed_window_first_n_pass:
  assumes "1 \<le> n"
    and "ip req0 = k" and "ip req1 = k"
    and "cl k = None \<or> (\<exists>c. cl k = Some c \<and> t0 > resetTime c)"
    and "\<forall>ev \<in> set evs0. event_time ev \<le> t0 + w"
    and "requests_by k gap = []"
    and "t1 > t0 + w"
    and "\<forall>ev \<in> set evs1. event_time ev \<le> t1 + w"
  shows "fst (serve w n cl (Request req0 t0 # evs0)) k
           = Some \<lparr>count = 1 + int (length (requests_by k evs0)), resetTime = t0 + w\<rparr>
       \<and> answers_to k (snd (serve w n cl (Request req0 t0 # evs0)))
           = first_allowed n (req0 # requests_by k evs0)
       \<and> fst (serve w n cl (Request req0 t0 # evs0 @ gap @ [Request req1 t1])) k
           = Some \<lparr>count = 1, resetTime = t1 + w\<rparr>
       \<and> answers_to k (snd (serve w n cl (Request req0 t0 # evs0 @ gap @ Request req1 t1 # evs1)))
           = first_allowed n (req0 # requests_by k evs0)
             @ first_allowed n (req1 # requests_by k evs1)"
proof -
  let ?first = "Request req0 t0 # evs0"
  let ?cl0 = "fst (serve w n cl ?first)"
  let ?cl1 = "fst (serve w n ?cl0 gap)"
  have one: "?cl0 k = Some \<lparr>count = 1 + int (length (requests_by k evs0)), resetTime = t0 + w\<rparr>"
    "answers_to k (snd (serve w n cl ?first)) = first_allowed n (req0 # requests_by k evs0)"
    using serve_window [of n req0 k cl t0 evs0 w] assms(1,2,4,5) by simp_all
  have between: "?cl1 k = ?cl0 k \<or> ?cl1 k = None"
    "answers_to k (snd (serve w n ?cl0 gap)) = []"
    using serve_gap [of k gap w n ?cl0] assms(6) by simp_all
  have opens: "?cl1 k = None \<or> (\<exists>c. ?cl1 k = Some c \<and> t1 > resetTime c)"
    using between(1) one(1) assms(7) by auto
  have two: "fst (serve w n ?cl1 (Request req1 t1 # evs)) k
               = Some \<lparr>count = 1 + int (length (requests_by k evs)), resetTime = t1 + w\<rparr>"
    "answers_to k (snd (serve w n ?cl1 (Request req1 t1 # evs)))
       = first_allowed n (req1 # requests_by k evs)"
    if "\<forall>ev \<in> set evs. event_time ev \<le> t1 + w" for evs
    using serve_window [of n req1 k ?cl1 t1 evs w] assms(1,3) opens that by simp_all
  have split: "serve w n cl (Request req0 t0 # evs0 @ gap @ rest)
                 = serve w n cl (?first @ gap @ rest)" for rest
    by simp
  have parts: "serve w n cl (?first @ gap @ rest)
                 = (fst (serve w n ?cl1 rest),
                    snd (serve w n cl ?first) @ snd (serve w n ?cl0 gap)
                    @ snd (serve w n ?cl1 rest))" for rest
    by (simp only: serve_append fst_conv snd_conv)
  have again: "fst (serve w n ?cl1 [Request req1 t1]) k = Some \<lparr>count = 1, resetTime = t1 + w\<rparr>"
    using two(1) [of "[]"] by (simp del: serve.simps)
  have reset: "fst (serve w n cl (Request req0 t0 # evs0 @ gap @ [Request req1 t1])) k
                 = Some \<lparr>count = 1, resetTime = t1 + w\<rparr>"
    by (simp only: split parts fst_conv again)
  have both: "answers_to k (snd (serve w n cl (Request req0 t0 # evs0 @ gap @ Request req1 t1 # evs1)))
           = first_allowed n (req0 # requests_by k evs0)
             @ first_allowed n (req1 # requests_by k evs1)"
    by (simp only: split parts snd_conv answers_to_append one(2) between(2) two(2) [OF assms(8)]
          append_Nil)
  from one reset both show ?thesis by blast
qed

lemma fixed_window_first_n_pass_example:
  "answers_to ''10.0.0.7''
     (snd (serve 1000 2 Map.empty
        [Request (plain_request ''/api/a'') 0, Request (plain_request ''/api/b'') 10, Sweep 500,
         Request (plain_request ''/api/c'') 900,
         Sweep 1500,
         Request (plain_request ''/api/d'') 2000, Request (plain_request ''/api/e'') 2100,
         Request (plain_request ''/api/f'') 3000]))
   = [Next (plain_request ''/api/a''), Next (plain_request ''/api/b''),
      Respond too_many_requests,
      Next (plain_request ''/api/d''), Next (plain_request ''/api/e''),
      Respond too_many_requests]
   \<and> fst (serve 1000 2 Map.empty
        [Request (plain_request ''/api/a'') 0, Request (plain_request ''/api/b'') 10, Sweep 500,
         Request (plain_request ''/api/c'') 900,
         Sweep 1500,
         Request (plain_request ''/api/d'') 2000]) ''10.0.0.7''
     = Some \<lparr>count = 1, resetTime = 3000\<rparr>"
proof -
  let ?k = "''10.0.0.7''"
  let ?evs0 = "[Request (plain_request ''/api/b'') 10, Sweep 500,
                Request (plain_request ''/api/c'') 900]"
  let ?gap = "[Sweep 1500]"
  let ?evs1 = "[Request (plain_request ''/api/e'') 2100, Request (plain_request ''/api/f'') 3000]"
  have h1: "(1::int) \<le> 2" by simp
  have h2: "ip (plain_request ''/api/a'') = ?k" and h3: "ip (plain_request ''/api/d'') = ?k"
    by (simp_all add: plain_request_def)
  have h4: "(Map.empty :: string \<rightharpoonup> client) ?k = None
            \<or> (\<exists>c. (Map.empty :: string \<rightharpoonup> client) ?k = Some c \<and> 0 > resetTime c)"
    by simp
  have h5: "\<forall>ev \<in> set ?evs0. event_time ev \<le> 0 + 1000" by simp
  have h6: "requests_by ?k ?gap = []" by simp
  have h7: "(2000::int) > 0 + 1000" by simp
  have h8: "\<forall>ev \<in> set ?evs1. event_time ev \<le> 2000 + 1000" by simp
  have mine: "requests_by ?k ?evs0 = [plain_request ''/api/b'', plain_request ''/api/c'']"
    "requests_by ?k ?evs1 = [plain_request ''/api/e'', plain_request ''/api/f'']"
    by (simp_all add: plain_request_def)
  have two: "nat 2 = Suc (Suc 0)" by simp
  from fixed_window_first_n_pass [OF h1 h2 h3 h4 h5 h6 h7 h8] mine
  show ?thesis
    by (simp add: first_allowed_def two)
qed

text \<open>
  Why the maximum has to be at least 1 there: a client without an entry is let through
  before the count is compared, so with a maximum of 0, which no limiter of the module
  has, the first request of a client would still pass.
\<close>

lemma limiter_max_zero_first_request:
  "answers_to ''10.0.0.7''
     (snd (serve 60000 0 Map.empty
        [Request (plain_request ''/download/a'') 1000, Request (plain_request ''/download/b'') 2000]))
   = [Next (plain_request ''/download/a''), Respond too_many_requests]
   \<and> first_allowed 0 [plain_request ''/download/a'', plain_request ''/download/b'']
   = [Respond too_many_requests, Respond too_many_requests]"
  by (simp add: answers_to_def rateLimiter_def Let_def first_allowed_def plain_request_def)

text \<open>
  Claim C5. The module creates three limiters: login (15 minutes, 10), general (15
  minutes, 1000) and file (1 minute, 500). For each of them, with its window \<open>w\<close> and
  its maximum \<open>n\<close>, and for every client \<open>k\<close>: a request of \<open>k\<close> at time \<open>t0\<close> that finds
  no entry, or an entry whose reset time has passed, opens a window with count 1 that
  ends at \<open>t0 + w\<close>. Of the requests of \<open>k\<close> up to then, that one included, exactly the
  first \<open>n\<close> pass and every later one is answered 429, whatever other clients and the
  sweep do meanwhile. After the window, whether or not a sweep has removed the entry,
  the next request of \<open>k\<close>, at \<open>t1 > t0 + w\<close>, sets the count to 1 and the reset time to
  \<open>t1 + w\<close>, and again exactly the first \<open>n\<close> requests of the new window pass, that one
  included.
\<close>

theorem module_limiters_first_n_pass:
  assumes "(w, n) \<in> {loginLimiter, generalLimiter, fileLimiter}"
    and "ip req0 = k" and "ip req1 = k"
    and "cl k = None \<or> (\<exists>c. cl k = Some c \<and> t0 > resetTime c)"
    and "\<forall>ev \<in> set evs0. event_time ev \<le> t0 + w"
    and "requests_by k gap = []"
    and "t1 > t0 + w"
    and "\<forall>ev \<in> set evs1. event_time ev \<le> t1 + w"
  shows "fst (serve w n cl (Request req0 t0 # evs0)) k
           = Some \<lparr>count = 1 + int (length (requests_by k evs0)), resetTime = t0 + w\<rparr>
       \<and> answers_to k (snd (serve w n cl (Request req0 t0 # evs0)))
           = first_allowed n (req0 # requests_by k evs0)
       \<and> fst (serve w n cl (Request req0 t0 # evs0 @ gap @ [Request req1 t1])) k
           = Some \<lparr>count = 1, resetTime = t1 + w\<rparr>
       \<and> answers_to k (snd (serve w n cl (Request req0 t0 # evs0 @ gap @ Request req1 t1 # evs1)))
           = first_allowed n (req0 # requests_by k evs0)
             @ first_allowed n (req1 # requests_by k evs1)"
proof -
  have "n = snd loginLimiter \<or> n = snd generalLimiter \<or> n = snd fileLimiter"
    using assms(1) by (auto dest: arg_cong [where f = snd])
  then have "1 \<le> n"
    using module_limiters_positive by auto
  then show ?thesis
    using fixed_window_first_n_pass
            [where n = n and ?req0.0 = req0 and k = k and ?req1.0 = req1 and cl = cl
               and ?t0.0 = t0 and ?evs0.0 = evs0 and w = w and gap = gap and ?t1.0 = t1
               and ?evs1.0 = evs1]
          assms(2-8)
    by blast
qed

text \<open>
  The login limiter: twelve attempts of one client within the 15 minutes, a sweep and a
  request of another client among them; then, after a sweep past the end of the
  window, two more attempts.
\<close>

theorem module_limiters_first_n_pass_witness:
  "answers_to ''10.0.0.7''
     (snd (serve (fst loginLimiter) (snd loginLimiter) Map.empty
        [Request login_attempt 0,
         Request login_attempt 1000, Request login_attempt 2000, Request login_attempt 3000,
         Sweep 300000, Request (login_attempt\<lparr>ip := ''10.0.0.8''\<rparr>) 300500,
         Request login_attempt 4000, Request login_attempt 5000, Request login_attempt 6000,
         Request login_attempt 7000, Request login_attempt 8000, Request login_attempt 9000,
         Request login_attempt 10000, Request login_attempt 900000,
         Sweep 1200000,
         Request login_attempt 1300000, Request login_attempt 1300001]))
   = replicate 10 (Next login_attempt) @ replicate 2 (Respond too_many_requests)
     @ replicate 2 (Next login_attempt)
   \<and> fst (serve (fst loginLimiter) (snd loginLimiter) Map.empty
        [Request login_attempt 0,
         Request login_attempt 1000, Request login_attempt 2000, Request login_attempt 3000,
         Sweep 300000, Request (login_attempt\<lparr>ip := ''10.0.0.8''\<rparr>) 300500,
         Request login_attempt 4000, Request login_attempt 5000, Request login_attempt 6000,
         Request login_attempt 7000, Request login_attempt 8000, Request login_attempt 9000,
         Request login_attempt 10000, Request login_attempt 900000,
         Sweep 1200000,
         Request login_attempt 1300000]) ''10.0.0.7''
     = Some \<lparr>count = 1, resetTime = 2200000\<rparr>"
proof -
  let ?k = "''10.0.0.7''"
  let ?evs0 = "[Request login_attempt 1000, Request login_attempt 2000, Request login_attempt 3000,
         Sweep 300000, Request (login_attempt\<lparr>ip := ''10.0.0.8''\<rparr>) 300500,
         Request login_attempt 4000, Request login_attempt 5000, Request login_attempt 6000,
         Request login_attempt 7000, Request login_attempt 8000, Request login_attempt 9000,
         Request login_attempt 10000, Request login_attempt 900000]"
  let ?gap = "[Sweep 1200000]"
  let ?evs1 = "[Request login_attempt 1300001]"
  have h1: "(900000, 10) \<in> {loginLimiter, generalLimiter, fileLimiter}"
    by (simp add: loginLimiter_def)
  have h2: "ip login_attempt = ?k"
    by (simp add: login_attempt_def plain_request_def)
  have h4: "(Map.empty :: string \<rightharpoonup> client) ?k = None
            \<or> (\<exists>c. (Map.empty :: string \<rightharpoonup> client) ?k = Some c \<and> 0 > resetTime c)"
    by simp
  have h5: "\<forall>ev \<in> set ?evs0. event_time ev \<le> 0 + 900000" by simp
  have h6: "requests_by ?k ?gap = []" by simp
  have h7: "(1300000::int) > 0 + 900000" by simp
  have h8: "\<forall>ev \<in> set ?evs1. event_time ev \<le> 1300000 + 900000" by simp
  have mine: "requests_by ?k ?evs0 = replicate 11 login_attempt"
    "requests_by ?k ?evs1 = [login_attempt]"
    by (simp_all add: h2 numeral_eq_Suc)
  have lim: "fst loginLimiter = 900000" "snd loginLimiter = 10"
    by (simp_all add: loginLimiter_def)
  have ten: "nat 10 = Suc (Suc (Suc (Suc (Suc (Suc (Suc (Suc (Suc (Suc 0)))))))))"
    by simp
  from module_limiters_first_n_pass [OF h1 h2 h2 h4 h5 h6 h7 h8] mine
  show ?thesis
    by (simp add: lim first_allowed_def ten numeral_eq_Suc)
qed

end
